theory Spec2Isabelle
  imports Complex_Main "HOL-Library.Sublist" "HOL-Library.Char_ord" "HOL-Library.List_Lexorder"
    "HOL-Library.Product_Lexorder" "HOL-Library.Multiset"
begin

section \<open>Tables as the loaders and the cleaner see them\<close>

text \<open>
  A DataFrame read from a CSV file is a list of column names and a list of rows; a row holds
  one cell per column, in the order of the column names. A cell holds a string or a number;
  \<open>None\<close> is the missing value (NaN) of pandas. Python exceptions are values of
  \<open>error\<close>, carrying the exception class and a short form of its message.
\<close>

datatype cell = Str string | Num real

record frame =
  columns :: "string list"
  rows :: "cell option list list"

datatype error = ValueError string | KeyError string | TypeError string

fun index_of :: "string \<Rightarrow> string list \<Rightarrow> nat option" where
  "index_of c [] = None"
| "index_of c (d # ds) = (if c = d then Some 0 else map_option Suc (index_of c ds))"

definition get_cell :: "string list \<Rightarrow> string \<Rightarrow> cell option list \<Rightarrow> cell option" where
  "get_cell cols c r =
     (case index_of c cols of None \<Rightarrow> None
      | Some k \<Rightarrow> if k < length r then r ! k else None)"

definition critical_columns :: "string list" where
  "critical_columns =
     [''Ticker'', ''DTYYYYMMDD'', ''Open'', ''High'', ''Low'', ''Close'', ''Volume'']"

definition numerical_cols :: "string list" where
  "numerical_cols = [''Open'', ''High'', ''Low'', ''Close'', ''Volume'']"

text \<open>\<open>df.dropna(subset=...)\<close>: keep the rows with no missing cell in the listed columns.\<close>

definition dropna :: "string list \<Rightarrow> frame \<Rightarrow> frame" where
  "dropna cs df =
     df\<lparr>rows := filter (\<lambda>r. list_all (\<lambda>c. get_cell (columns df) c r \<noteq> None) cs) (rows df)\<rparr>"

text \<open>\<open>df[col].isnull().sum()\<close>.\<close>

definition isnull_sum :: "string \<Rightarrow> frame \<Rightarrow> nat" where
  "isnull_sum c df = length (filter (\<lambda>r. get_cell (columns df) c r = None) (rows df))"

text \<open>
  \<open>df[col].mean()\<close>: the mean of the present cells; a column holding a string raises
  TypeError; a column with no present cell has the mean NaN.
\<close>

fun present_numbers :: "cell option list \<Rightarrow> error + real list" where
  "present_numbers [] = Inr []"
| "present_numbers (None # cs) = present_numbers cs"
| "present_numbers (Some (Str s) # cs) = Inl (TypeError ''could not convert string to numeric'')"
| "present_numbers (Some (Num v) # cs) =
     (case present_numbers cs of Inl e \<Rightarrow> Inl e | Inr vs \<Rightarrow> Inr (v # vs))"

definition column_mean :: "string \<Rightarrow> frame \<Rightarrow> error + real option" where
  "column_mean c df =
     (case present_numbers (map (get_cell (columns df) c) (rows df)) of
        Inl e \<Rightarrow> Inl e
      | Inr vs \<Rightarrow> Inr (if vs = [] then None else Some (sum_list vs / real (length vs))))"

text \<open>\<open>df[col].fillna(mean_value, inplace=True)\<close>; filling with NaN changes nothing.\<close>

definition fillna :: "string \<Rightarrow> real option \<Rightarrow> frame \<Rightarrow> frame" where
  "fillna c m df =
     (case (index_of c (columns df), m) of
        (Some k, Some v) \<Rightarrow>
          df\<lparr>rows := map (\<lambda>r. if k < length r \<and> r ! k = None then r[k := Some (Num v)] else r)
                         (rows df)\<rparr>
      | _ \<Rightarrow> df)"

text \<open>The loop of \<open>clean_data\<close> over \<open>numerical_cols\<close>.\<close>

fun fill_loop :: "string list \<Rightarrow> frame \<Rightarrow> error + frame" where
  "fill_loop [] df = Inr df"
| "fill_loop (c # cs) df =
     (if c \<in> set (columns df) then
        (if isnull_sum c df > 0 then
           (case column_mean c df of
              Inl e \<Rightarrow> Inl e
            | Inr m \<Rightarrow> fill_loop cs (fillna c m df))
         else fill_loop cs df)
      else fill_loop cs df)"

text \<open>\<open>drop_duplicates\<close> keeps the first occurrence of every row, in order.\<close>

fun drop_duplicates_from :: "'a list \<Rightarrow> 'a list \<Rightarrow> 'a list" where
  "drop_duplicates_from seen [] = []"
| "drop_duplicates_from seen (r # rs) =
     (if r \<in> set seen then drop_duplicates_from seen rs
      else r # drop_duplicates_from (r # seen) rs)"

definition drop_duplicates :: "'a list \<Rightarrow> 'a list" where
  "drop_duplicates rs = drop_duplicates_from [] rs"

text \<open>
  \<open>clean_data\<close> of data_cleaning.py. \<open>df[critical_columns]\<close> raises KeyError when a
  critical column is not in the table; the \<open>except\<close> clause logs and raises again.
\<close>

definition clean_data :: "frame \<Rightarrow> error + frame" where
  "clean_data df =
     (if \<not> list_all (\<lambda>c. c \<in> set (columns df)) critical_columns
      then Inl (KeyError ''not in index'')
      else (case fill_loop numerical_cols (dropna critical_columns df) of
              Inl e \<Rightarrow> Inl e
            | Inr df' \<Rightarrow> Inr (df'\<lparr>rows := drop_duplicates (rows df')\<rparr>)))"

section \<open>The two loaders\<close>

text \<open>
  A directory is the list of its file names, each with what \<open>pd.read_csv\<close> does on that
  file: it raises, or it returns a table.
\<close>

datatype read_csv = Raises error | Parsed frame

text \<open>\<open>clean_column_names\<close> of data_cleaning.py: drop the characters < and > from the names.\<close>

definition clean_column_names :: "frame \<Rightarrow> frame" where
  "clean_column_names df =
     df\<lparr>columns := map (filter (\<lambda>ch. ch \<noteq> CHR ''<'' \<and> ch \<noteq> CHR ''>'')) (columns df)\<rparr>"

text \<open>
  \<open>pd.concat(data_frames, ignore_index=True)\<close>: the columns are the union of the tables'
  columns in order of first appearance; a row keeps its cells under their column names and
  is missing in the columns its own table does not have.
\<close>

definition concat_frames :: "frame list \<Rightarrow> frame" where
  "concat_frames dfs =
     (let cols = drop_duplicates (concat (map columns dfs))
      in \<lparr>columns = cols,
          rows = concat (map (\<lambda>df. map (\<lambda>r. map (\<lambda>c. get_cell (columns df) c r) cols) (rows df))
                             dfs)\<rparr>)"

text \<open>
  \<open>load_data\<close> of data_cleaning.py. Any exception leaves the function: the \<open>except\<close>
  clause logs it and raises it again.
\<close>

fun load_loop_cleaning :: "(string \<times> read_csv) list \<Rightarrow> frame list \<Rightarrow> error + frame list" where
  "load_loop_cleaning [] data_frames = Inr data_frames"
| "load_loop_cleaning ((file, Raises e) # fs) data_frames = Inl e"
| "load_loop_cleaning ((file, Parsed df0) # fs) data_frames =
     (let df = clean_column_names df0;
          missing_columns = filter (\<lambda>col. col \<notin> set (columns df)) critical_columns
      in if missing_columns \<noteq> [] then Inl (ValueError ''Missing columns in file'')
         else load_loop_cleaning fs (data_frames @ [df]))"

definition load_data_cleaning :: "(string \<times> read_csv) list \<Rightarrow> error + frame" where
  "load_data_cleaning dir =
     (let all_files = filter (\<lambda>(f, c). suffix ''.csv'' f) dir
      in if all_files = [] then Inl (ValueError ''No CSV files found in the directory.'')
         else (case load_loop_cleaning all_files [] of
                 Inl e \<Rightarrow> Inl e
               | Inr data_frames \<Rightarrow> Inr (concat_frames data_frames)))"

text \<open>
  \<open>load_data\<close> of data_processing.py. An exception while reading a file is logged and the
  loop goes on; a file that lacks a required column or has no rows is skipped with a warning.
\<close>

definition required_columns :: "string set" where
  "required_columns =
     {''Ticker'', ''DTYYYYMMDD'', ''Open'', ''High'', ''Low'', ''Close'', ''Volume''}"

definition empty_frame :: "frame \<Rightarrow> bool" where
  "empty_frame df \<longleftrightarrow> columns df = [] \<or> rows df = []"

fun load_loop :: "(string \<times> read_csv) list \<Rightarrow> frame list \<Rightarrow> frame list" where
  "load_loop [] data_frames = data_frames"
| "load_loop ((file, Raises e) # fs) data_frames = load_loop fs data_frames"
| "load_loop ((file, Parsed df) # fs) data_frames =
     (if \<not> required_columns \<subseteq> set (columns df) then load_loop fs data_frames
      else if empty_frame df then load_loop fs data_frames
      else load_loop fs (data_frames @ [df]))"

definition load_data :: "(string \<times> read_csv) list \<Rightarrow> error + frame" where
  "load_data dir =
     (let all_files = filter (\<lambda>(f, c). suffix ''.csv'' f) dir;
          data_frames = load_loop all_files []
      in if data_frames = [] then Inl (ValueError ''No valid CSV files found in the directory.'')
         else Inr (concat_frames data_frames))"

text \<open>The files \<open>load_data\<close> of data_processing.py keeps, and the faults of a file.\<close>

fun usable :: "string \<times> read_csv \<Rightarrow> frame option" where
  "usable (f, Raises e) = None"
| "usable (f, Parsed df) =
     (if suffix ''.csv'' f \<and> required_columns \<subseteq> set (columns df) \<and> rows df \<noteq> []
      then Some df else None)"

fun faulty :: "string \<times> read_csv \<Rightarrow> bool" where
  "faulty (f, Raises e) = suffix ''.csv'' f"
| "faulty (f, Parsed df) =
     (suffix ''.csv'' f \<and> \<not> set critical_columns \<subseteq> set (columns (clean_column_names df)))"

section \<open>Numbers of the indicator engine\<close>

text \<open>
  A price cell of the panel is a finite number or missing: \<open>None\<close> is NaN; infinite cells
  in the input are not modelled. Arithmetic on finite numbers is exact real arithmetic,
  except in \<open>calculate_stochastic_oscillator\<close>, whose operations are rounded (see
  \<open>rounding\<close> below); overflow and underflow of 64-bit floats are left out everywhere.
  A division can produce an infinity, so the results of \<open>/\<close> and what is computed from
  them are values of \<open>fval\<close>, with the IEEE rules for NaN and the infinities; a zero
  divisor counts as \<open>+0\<close>. The library is pandas as of its versions 2.x.
\<close>

datatype fval = Fin real | PInf | NInf | NaN

fun of_opt :: "real option \<Rightarrow> fval" where
  "of_opt None = NaN"
| "of_opt (Some v) = Fin v"

fun fneg :: "fval \<Rightarrow> fval" where
  "fneg (Fin a) = Fin (- a)"
| "fneg PInf = NInf"
| "fneg NInf = PInf"
| "fneg NaN = NaN"

fun fadd :: "fval \<Rightarrow> fval \<Rightarrow> fval" where
  "fadd NaN y = NaN"
| "fadd x NaN = NaN"
| "fadd (Fin a) (Fin b) = Fin (a + b)"
| "fadd PInf NInf = NaN"
| "fadd NInf PInf = NaN"
| "fadd PInf y = PInf"
| "fadd x PInf = PInf"
| "fadd NInf y = NInf"
| "fadd x NInf = NInf"

definition fsub :: "fval \<Rightarrow> fval \<Rightarrow> fval" where
  "fsub x y = fadd x (fneg y)"

fun fdiv :: "fval \<Rightarrow> fval \<Rightarrow> fval" where
  "fdiv NaN y = NaN"
| "fdiv x NaN = NaN"
| "fdiv (Fin a) (Fin b) =
     (if b \<noteq> 0 then Fin (a / b) else if a > 0 then PInf else if a < 0 then NInf else NaN)"
| "fdiv (Fin a) y = Fin 0"
| "fdiv PInf (Fin b) = (if b \<ge> 0 then PInf else NInf)"
| "fdiv NInf (Fin b) = (if b \<ge> 0 then NInf else PInf)"
| "fdiv x y = NaN"

text \<open>Elementwise \<open>-\<close> and \<open>+\<close> of two series of finite-or-missing numbers.\<close>

fun opt_sub :: "real option \<Rightarrow> real option \<Rightarrow> real option" where
  "opt_sub (Some a) (Some b) = Some (a - b)"
| "opt_sub x y = None"

fun opt_add :: "real option \<Rightarrow> real option \<Rightarrow> real option" where
  "opt_add (Some a) (Some b) = Some (a + b)"
| "opt_add x y = None"

fun opt_scale :: "real \<Rightarrow> real option \<Rightarrow> real option" where
  "opt_scale k (Some a) = Some (k * a)"
| "opt_scale k None = None"

text \<open>
  The same operations with the result of every operation rounded by \<open>rnd\<close>, which stands
  for the rounding of a float operation to the nearest float. \<open>rounding u rnd\<close> is what
  is known of it: it is monotone and its relative error is at most the unit roundoff \<open>u\<close>
  (\<open>2 ^ -53\<close> for 64-bit floats).
\<close>

definition rounding :: "real \<Rightarrow> (real \<Rightarrow> real) \<Rightarrow> bool" where
  "rounding u rnd \<longleftrightarrow> 0 \<le> u \<and> u < 1 \<and> mono rnd \<and> (\<forall>x. \<bar>rnd x - x\<bar> \<le> u * \<bar>x\<bar>)"

fun opt_sub_rnd :: "(real \<Rightarrow> real) \<Rightarrow> real option \<Rightarrow> real option \<Rightarrow> real option" where
  "opt_sub_rnd rnd (Some a) (Some b) = Some (rnd (a - b))"
| "opt_sub_rnd rnd x y = None"

fun opt_scale_rnd :: "(real \<Rightarrow> real) \<Rightarrow> real \<Rightarrow> real option \<Rightarrow> real option" where
  "opt_scale_rnd rnd k (Some a) = Some (rnd (k * a))"
| "opt_scale_rnd rnd k None = None"

fun fround :: "(real \<Rightarrow> real) \<Rightarrow> fval \<Rightarrow> fval" where
  "fround rnd (Fin a) = Fin (rnd a)"
| "fround rnd x = x"

definition fdiv_rnd :: "(real \<Rightarrow> real) \<Rightarrow> fval \<Rightarrow> fval \<Rightarrow> fval" where
  "fdiv_rnd rnd x y = fround rnd (fdiv x y)"

text \<open>
  \<open>rolling()\<close> turns the infinities of its input into NaN before it aggregates.
\<close>

fun finite_value :: "fval \<Rightarrow> real option" where
  "finite_value (Fin a) = Some a"
| "finite_value x = None"

section \<open>Rolling windows\<close>

text \<open>
  \<open>x.rolling(window=W)\<close> with the default \<open>min_periods = W\<close>: the value at row \<open>i\<close> is
  the aggregate of the \<open>W\<close> cells ending at \<open>i\<close>, and is missing when fewer than \<open>W\<close> rows
  have been seen or one of the \<open>W\<close> cells is missing. \<open>std\<close> is the sample standard
  deviation (\<open>ddof = 1\<close>, the default).
\<close>

definition window :: "nat \<Rightarrow> 'a list \<Rightarrow> nat \<Rightarrow> 'a list" where
  "window W xs i = take W (drop (Suc i - W) xs)"

definition rolling :: "nat \<Rightarrow> (real list \<Rightarrow> real option) \<Rightarrow> real option list \<Rightarrow> real option list" where
  "rolling W agg xs =
     map (\<lambda>i. if Suc i < W then None
              else if list_all (\<lambda>x. x \<noteq> None) (window W xs i) then agg (map the (window W xs i))
              else None)
         [0..<length xs]"

definition mean :: "real list \<Rightarrow> real option" where
  "mean vs = (if vs = [] then None else Some (sum_list vs / real (length vs)))"

definition std :: "real list \<Rightarrow> real option" where
  "std vs =
     (if length vs < 2 then None
      else Some (sqrt (sum_list (map (\<lambda>v. (v - sum_list vs / real (length vs))\<^sup>2) vs)
                       / real (length vs - 1))))"

fun minimum :: "real list \<Rightarrow> real option" where
  "minimum [] = None"
| "minimum (v # vs) = (case minimum vs of None \<Rightarrow> Some v | Some m \<Rightarrow> Some (min v m))"

fun maximum :: "real list \<Rightarrow> real option" where
  "maximum [] = None"
| "maximum (v # vs) = (case maximum vs of None \<Rightarrow> Some v | Some m \<Rightarrow> Some (max v m))"

section \<open>Exponential smoothing\<close>

text \<open>
  \<open>x.ewm(span=s, adjust=False).mean()\<close>, as the library's loop computes it with its
  defaults (\<open>ignore_na=False\<close>, \<open>min_periods=0\<close>): \<open>alpha = 2 / (s + 1)\<close>; the state is the
  weighted value so far and the weight \<open>old_wt\<close> of the past; a missing cell leaves the
  value and scales \<open>old_wt\<close> by \<open>1 - alpha\<close>; the output is missing until the first present
  cell.
\<close>

fun ewm_loop :: "real \<Rightarrow> real option \<Rightarrow> real \<Rightarrow> real option list \<Rightarrow> real option list" where
  "ewm_loop alpha weighted old_wt [] = []"
| "ewm_loop alpha None old_wt (None # rest) = None # ewm_loop alpha None old_wt rest"
| "ewm_loop alpha None old_wt (Some cur # rest) = Some cur # ewm_loop alpha (Some cur) old_wt rest"
| "ewm_loop alpha (Some w) old_wt (None # rest) =
     Some w # ewm_loop alpha (Some w) (old_wt * (1 - alpha)) rest"
| "ewm_loop alpha (Some w) old_wt (Some cur # rest) =
     (let old_wt' = old_wt * (1 - alpha);
          w' = (if w \<noteq> cur then (old_wt' * w + alpha * cur) / (old_wt' + alpha) else w)
      in Some w' # ewm_loop alpha (Some w') 1 rest)"

definition ewm_mean :: "real \<Rightarrow> real option list \<Rightarrow> real option list" where
  "ewm_mean spn xs =
     (case xs of [] \<Rightarrow> [] | x # rest \<Rightarrow> x # ewm_loop (2 / (spn + 1)) x 1 rest)"

text \<open>
  The recurrence of the specification (section 4.3), on a series without missing cells:
  \<open>EMA[0] = close[0]\<close>, \<open>EMA[i] = alpha * close[i] + (1 - alpha) * EMA[i-1]\<close>.
\<close>

fun EMA_spec :: "real \<Rightarrow> real list \<Rightarrow> nat \<Rightarrow> real" where
  "EMA_spec alpha cs 0 = cs ! 0"
| "EMA_spec alpha cs (Suc i) = alpha * cs ! Suc i + (1 - alpha) * EMA_spec alpha cs i"

section \<open>The three indicator functions\<close>

text \<open>\<open>series.diff()\<close>: missing at the first row.\<close>

definition diff :: "real option list \<Rightarrow> real option list" where
  "diff xs = map (\<lambda>i. if i = 0 then None else opt_sub (xs ! i) (xs ! (i - 1))) [0..<length xs]"

text \<open>
  \<open>delta.where(delta > 0, 0)\<close> keeps a cell where the comparison is true and puts 0
  elsewhere; a comparison with NaN is false, so a missing \<open>delta\<close> becomes 0.
\<close>

fun where_pos :: "real option \<Rightarrow> real option" where
  "where_pos (Some d) = (if d > 0 then Some d else Some 0)"
| "where_pos None = Some 0"

fun where_neg :: "real option \<Rightarrow> real option" where
  "where_neg (Some d) = (if d < 0 then Some d else Some 0)"
| "where_neg None = Some 0"

definition calculate_rsi :: "real option list \<Rightarrow> nat \<Rightarrow> fval list" where
  "calculate_rsi series W =
     (let delta = diff series;
          gain = rolling W mean (map where_pos delta);
          loss = rolling W mean (map (\<lambda>d. opt_scale (- 1) (where_neg d)) delta);
          rs = map2 (\<lambda>g l. fdiv (of_opt g) (of_opt l)) gain loss;
          rsi = map (\<lambda>r. fsub (Fin 100) (fdiv (Fin 100) (fadd (Fin 1) r))) rs
      in rsi)"

definition calculate_macd :: "real option list \<Rightarrow> real option list \<times> real option list" where
  "calculate_macd series =
     (let ema_short = ewm_mean 12 series;
          ema_long = ewm_mean 26 series;
          macd = map2 opt_sub ema_short ema_long;
          signal_line = ewm_mean 9 macd
      in (macd, signal_line))"

section \<open>The panel and its groups\<close>

text \<open>
  A row of the panel that \<open>preprocess_data\<close> receives holds the seven required columns
  (\<open>load_data\<close> lets no table through without them). The ticker and the date cell are
  present; a price or volume cell may be missing. \<open>preprocess_data\<close> replaces
  \<open>DTYYYYMMDD\<close> by \<open>Date\<close> and then adds the indicator columns; \<open>%K\<close> and \<open>%D\<close> are the
  fields \<open>K_percent\<close> and \<open>D_percent\<close>.
\<close>

type_synonym timestamp = "nat \<times> nat \<times> nat"

record ohlcv =
  Ticker :: string
  Open :: "real option"
  High :: "real option"
  Low :: "real option"
  Close :: "real option"
  Volume :: "real option"

record raw_row = ohlcv +
  DTYYYYMMDD :: int

record dated_row = ohlcv +
  Date :: timestamp

record feature_row = dated_row +
  SMA_10 :: "real option"
  EMA_10 :: "real option"
  BB_Middle :: "real option"
  BB_Upper :: "real option"
  BB_Lower :: "real option"
  Daily_Return :: fval
  RSI_14 :: fval

text \<open>
  The last four columns are assigned from tuples of per-group results, so a cell of them
  holds a whole Series object: the list of its values.
\<close>

record output_row = feature_row +
  MACD :: "real option list"
  Signal_Line :: "real option list"
  K_percent :: "fval list"
  D_percent :: "real option list"

text \<open>
  \<open>pd.to_datetime(df['DTYYYYMMDD'], format='%Y%m%d')\<close> on a column of integers. The
  decimal digits of the integer are matched against the pattern of the format: four
  digits for \<open>%Y\<close>, then \<open>1[0-2]|0[1-9]|[1-9]\<close> for \<open>%m\<close>, then
  \<open>3[01]|[12][0-9]|0[1-9]|[1-9]\<close> for \<open>%d\<close>, the alternatives tried in this order and the
  whole string to be used up. So eight digits are read as YYYYMMDD, and seven or six
  digits are read with a one-digit month or day (2024012 is 2024-01-02). The three
  numbers must form a calendar date within the range of a nanosecond timestamp
  (1677-09-22 to 2262-04-11), else the call raises.
\<close>

definition days_in_month :: "nat \<Rightarrow> nat \<Rightarrow> nat" where
  "days_in_month y m =
     (if m = 2 then (if (y mod 4 = 0 \<and> y mod 100 \<noteq> 0) \<or> y mod 400 = 0 then 29 else 28)
      else if m = 4 \<or> m = 6 \<or> m = 9 \<or> m = 11 then 30 else 31)"

definition strptime_Ymd :: "int \<Rightarrow> (nat \<times> nat \<times> nat) option" where
  "strptime_Ymd n =
     (if 10000000 \<le> n \<and> n \<le> 99999999 then
        (let m = nat (n div 100 mod 100); d = nat (n mod 100)
         in if 1 \<le> m \<and> m \<le> 12 \<and> 1 \<le> d \<and> d \<le> 31 then Some (nat (n div 10000), m, d)
            else None)
      else if 1000000 \<le> n \<and> n \<le> 9999999 then
        (let y = nat (n div 1000); ab = nat (n div 10 mod 100); a = nat (n div 100 mod 10);
             bc = nat (n mod 100); c = nat (n mod 10)
         in if 1 \<le> ab \<and> ab \<le> 12 \<and> 1 \<le> c then Some (y, ab, c)
            else if 1 \<le> a \<and> 1 \<le> bc \<and> bc \<le> 31 then Some (y, a, bc)
            else None)
      else if 100000 \<le> n \<and> n \<le> 999999 then
        (let m = nat (n div 10 mod 10); d = nat (n mod 10)
         in if 1 \<le> m \<and> 1 \<le> d then Some (nat (n div 100), m, d) else None)
      else None)"

definition to_datetime :: "int \<Rightarrow> error + timestamp" where
  "to_datetime n =
     (case strptime_Ymd n of
        None \<Rightarrow> Inl (ValueError ''time data does not match format'')
      | Some (y, m, d) \<Rightarrow>
          if d > days_in_month y m then Inl (ValueError ''day is out of range for month'')
          else if (y, m, d) < (1677, 9, 22) \<or> (y, m, d) > (2262, 4, 11)
          then Inl (ValueError ''Out of bounds nanosecond timestamp'')
          else Inr (y, m, d))"

fun convert_dates :: "raw_row list \<Rightarrow> error + dated_row list" where
  "convert_dates [] = Inr []"
| "convert_dates (r # rs) =
     (case to_datetime (DTYYYYMMDD r) of
        Inl e \<Rightarrow> Inl e
      | Inr d \<Rightarrow>
          (case convert_dates rs of
             Inl e \<Rightarrow> Inl e
           | Inr ds \<Rightarrow>
               Inr (\<lparr>Ticker = Ticker r, Open = Open r, High = High r, Low = Low r,
                     Close = Close r, Volume = Volume r, Date = d\<rparr> # ds)))"

text \<open>\<open>df.sort_values(by=['Ticker', 'Date'])\<close>: a stable sort on the pair of keys.\<close>

definition sort_values :: "dated_row list \<Rightarrow> dated_row list" where
  "sort_values df = sort_key (\<lambda>r. (Ticker r, Date r)) df"

text \<open>
  \<open>df.groupby('Ticker')\<close>: the group of a ticker is the rows with that ticker, in the
  order of the table; the groups are visited in ascending order of the ticker.
  \<open>group_pos df p\<close> is the place of row \<open>p\<close> within its group.
\<close>

definition get_group :: "string \<Rightarrow> ('a ohlcv_scheme) list \<Rightarrow> ('a ohlcv_scheme) list" where
  "get_group t df = filter (\<lambda>r. Ticker r = t) df"

definition group_keys :: "('a ohlcv_scheme) list \<Rightarrow> string list" where
  "group_keys df = sort (remdups (map Ticker df))"

definition group_pos :: "('a ohlcv_scheme) list \<Rightarrow> nat \<Rightarrow> nat" where
  "group_pos df p = length (get_group (Ticker (df ! p)) (take p df))"

text \<open>
  \<open>df.groupby('Ticker')['Close'].transform(f)\<close>: \<open>f\<close> is applied to the Close series of
  every group and its result is put back on the rows of that group, by row label.
\<close>

definition transform :: "(real option list \<Rightarrow> 'b list) \<Rightarrow> ('a ohlcv_scheme) list \<Rightarrow> 'b list" where
  "transform f df =
     map (\<lambda>p. f (map Close (get_group (Ticker (df ! p)) df)) ! group_pos df p) [0..<length df]"

text \<open>
  \<open>df.groupby('Ticker')['Close'].apply(f)\<close> and \<open>df.groupby('Ticker').apply(f)\<close> for an
  \<open>f\<close> that returns a tuple: one tuple per group, in the order of the group keys.
\<close>

definition groupby_apply :: "(('a ohlcv_scheme) list \<Rightarrow> 'b) \<Rightarrow> ('a ohlcv_scheme) list \<Rightarrow> 'b list" where
  "groupby_apply f df = map (\<lambda>t. f (get_group t df)) (group_keys df)"

text \<open>
  \<open>pct_change()\<close> of a group's Close series with the default \<open>fill_method='pad'\<close>:
  missing cells take the last present value, then \<open>filled / filled.shift(1) - 1\<close>.
\<close>

fun ffill_from :: "real option \<Rightarrow> real option list \<Rightarrow> real option list" where
  "ffill_from last_seen [] = []"
| "ffill_from last_seen (None # xs) = last_seen # ffill_from last_seen xs"
| "ffill_from last_seen (Some v # xs) = Some v # ffill_from (Some v) xs"

definition pct_change :: "real option list \<Rightarrow> fval list" where
  "pct_change xs =
     (let filled = ffill_from None xs
      in map (\<lambda>i. if i = 0 then NaN
                  else fsub (fdiv (of_opt (filled ! i)) (of_opt (filled ! (i - 1)))) (Fin 1))
             [0..<length xs])"

text \<open>
  \<open>calculate_stochastic_oscillator\<close>: the rolling minimum and maximum pick a cell and do
  not round; the subtractions, the product and the quotient of \<open>%K\<close> are rounded one by
  one; \<open>%D\<close> is the rolling mean of \<open>%K\<close>, missing when one of the three cells is NaN or
  infinite.
\<close>

definition calculate_stochastic_oscillator ::
    "(real \<Rightarrow> real) \<Rightarrow> ('a ohlcv_scheme) list \<Rightarrow> nat \<Rightarrow> nat \<Rightarrow> fval list \<times> real option list" where
  "calculate_stochastic_oscillator rnd df k_period d_period =
     (let low_min = rolling k_period minimum (map Low df);
          high_max = rolling k_period maximum (map High df);
          k_percent =
            map (\<lambda>i. fdiv_rnd rnd
                        (of_opt (opt_scale_rnd rnd 100 (opt_sub_rnd rnd (Close (df ! i)) (low_min ! i))))
                        (of_opt (opt_sub_rnd rnd (high_max ! i) (low_min ! i))))
                [0..<length df];
          d_percent = rolling d_period mean (map finite_value k_percent)
      in (k_percent, d_percent))"

section \<open>The function \<open>preprocess_data\<close>\<close>

text \<open>
  The statements of \<open>preprocess_data\<close> from \<open>SMA_10\<close> to \<open>RSI_14\<close>: every column comes
  from a \<open>transform\<close> (or the group-wise \<open>pct_change\<close>) and none of them can raise.
\<close>

definition add_indicators :: "dated_row list \<Rightarrow> feature_row list" where
  "add_indicators df =
     (let sma = transform (rolling 10 mean) df;
          ema = transform (ewm_mean 10) df;
          sd_upper = transform (rolling 10 std) df;
          sd_lower = transform (rolling 10 std) df;
          ret = transform pct_change df;
          rsi = transform (\<lambda>x. calculate_rsi x 14) df
      in map (\<lambda>p. \<lparr>Ticker = Ticker (df ! p), Open = Open (df ! p), High = High (df ! p),
                    Low = Low (df ! p), Close = Close (df ! p), Volume = Volume (df ! p),
                    Date = Date (df ! p),
                    SMA_10 = sma ! p, EMA_10 = ema ! p, BB_Middle = sma ! p,
                    BB_Upper = opt_add (sma ! p) (opt_scale 2 (sd_upper ! p)),
                    BB_Lower = opt_sub (sma ! p) (opt_scale 2 (sd_lower ! p)),
                    Daily_Return = ret ! p, RSI_14 = rsi ! p\<rparr>)
             [0..<length df])"

text \<open>
  \<open>df[a], df[b] = zip(*results)\<close> where \<open>results\<close> holds one pair per group. \<open>zip\<close>
  turns the pairs into two tuples with one entry per group (none at all when there is no
  group, and the unpacking raises); assigning a tuple to a column raises ValueError unless
  it has as many entries as the table has rows, and otherwise puts entry \<open>p\<close> in row \<open>p\<close>.
\<close>

definition unzip_assign :: "nat \<Rightarrow> ('a \<times> 'b) list \<Rightarrow> error + ('a list \<times> 'b list)" where
  "unzip_assign n results =
     (if results = [] then Inl (ValueError ''not enough values to unpack (expected 2, got 0)'')
      else if length results \<noteq> n
      then Inl (ValueError ''Length of values does not match length of index'')
      else Inr (map fst results, map snd results))"

text \<open>
  \<open>preprocess_data\<close>. The rounding \<open>rnd\<close> of the float operations is handed on to
  \<open>calculate_stochastic_oscillator\<close>, its only user.
\<close>

definition preprocess_data :: "(real \<Rightarrow> real) \<Rightarrow> raw_row list \<Rightarrow> error + output_row list" where
  "preprocess_data rnd df0 =
     (case convert_dates df0 of
        Inl e \<Rightarrow> Inl e
      | Inr df1 \<Rightarrow>
          (let df = add_indicators (sort_values df1)
           in case unzip_assign (length df) (groupby_apply (\<lambda>g. calculate_macd (map Close g)) df) of
                Inl e \<Rightarrow> Inl e
              | Inr (macd, signal_line) \<Rightarrow>
                  (case unzip_assign (length df)
                          (groupby_apply (\<lambda>g. calculate_stochastic_oscillator rnd g 14 3) df) of
                     Inl e \<Rightarrow> Inl e
                   | Inr (k, d) \<Rightarrow>
                       Inr (map (\<lambda>p. \<lparr>Ticker = Ticker (df ! p), Open = Open (df ! p),
                                       High = High (df ! p), Low = Low (df ! p),
                                       Close = Close (df ! p), Volume = Volume (df ! p),
                                       Date = Date (df ! p),
                                       SMA_10 = SMA_10 (df ! p), EMA_10 = EMA_10 (df ! p),
                                       BB_Middle = BB_Middle (df ! p),
                                       BB_Upper = BB_Upper (df ! p),
                                       BB_Lower = BB_Lower (df ! p),
                                       Daily_Return = Daily_Return (df ! p),
                                       RSI_14 = RSI_14 (df ! p),
                                       MACD = macd ! p, Signal_Line = signal_line ! p,
                                       K_percent = k ! p, D_percent = d ! p\<rparr>)
                                [0..<length df]))))"

section \<open>Quantities of the specification and example panels\<close>

text \<open>
  The scenario of the specification: ticker AAA on twelve trading days, every price of a
  day equal to its close.
\<close>

definition AAA_panel :: "dated_row list" where
  "AAA_panel =
     map (\<lambda>(d, c). \<lparr>Ticker = ''AAA'', Open = Some c, High = Some c, Low = Some c, Close = Some c,
                     Volume = Some 1000, Date = (2024, 1, d)\<rparr>)
         (zip [2, 3, 4, 5, 8, 9, 10, 11, 12, 15, 16, 17]
              [10, 11, 9, 12, 13, 11, 14, 15, 13, 16, 17, 15])"

text \<open>
  The rolling standard deviation of section 4.2, over the window of \<open>SMA_10\<close>: the sample
  standard deviation (divisor 9) of the ten closes ending at place \<open>i\<close>.
\<close>

definition rollingStd10 :: "real option list \<Rightarrow> nat \<Rightarrow> real option" where
  "rollingStd10 cs i =
     (if i < 9 then None
      else if \<forall>j \<in> {i - 9..i}. cs ! j \<noteq> None
      then Some (sqrt ((\<Sum>j = i - 9..i. (the (cs ! j) - (\<Sum>k = i - 9..i. the (cs ! k)) / 10)\<^sup>2) / 9))
      else None)"

text \<open>
  The gain and the loss of a day as \<open>calculate_rsi\<close> takes them, and their means over the
  fourteen days ending at place \<open>i\<close>. The first day of a group and a day whose difference
  is missing count as gain 0 and loss 0.
\<close>

definition gain_at :: "real option list \<Rightarrow> nat \<Rightarrow> real" where
  "gain_at cs j =
     (if j = 0 then 0
      else case opt_sub (cs ! j) (cs ! (j - 1)) of None \<Rightarrow> 0 | Some d \<Rightarrow> max d 0)"

definition loss_at :: "real option list \<Rightarrow> nat \<Rightarrow> real" where
  "loss_at cs j =
     (if j = 0 then 0
      else case opt_sub (cs ! j) (cs ! (j - 1)) of None \<Rightarrow> 0 | Some d \<Rightarrow> max (- d) 0)"

definition avgGain :: "real option list \<Rightarrow> nat \<Rightarrow> real" where
  "avgGain cs i = (\<Sum>j = i - 13..i. gain_at cs j) / 14"

definition avgLoss :: "real option list \<Rightarrow> nat \<Rightarrow> real" where
  "avgLoss cs i = (\<Sum>j = i - 13..i. loss_at cs j) / 14"

text \<open>Ticker UP: fourteen closes rising by 1 a day, then one fall by 1.\<close>

definition UP_panel :: "dated_row list" where
  "UP_panel =
     map (\<lambda>(d, c). \<lparr>Ticker = ''UP'', Open = Some c, High = Some c, Low = Some c, Close = Some c,
                     Volume = Some 1000, Date = (2024, 3, d)\<rparr>)
         (zip [1, 4, 5, 6, 7, 8, 11, 12, 13, 14, 15, 18, 19, 20, 21]
              [1, 2, 3, 4, 5, 6, 7, 8, 9, 10, 11, 12, 13, 14, 13])"

text \<open>
  The lowest Low and the highest High of the fourteen rows ending at place \<open>i\<close>, and a
  row whose three prices are present with the close between the low and the high.
\<close>

definition lowMin :: "('a ohlcv_scheme) list \<Rightarrow> nat \<Rightarrow> real" where
  "lowMin df i = Min ((\<lambda>j. the (Low (df ! j))) ` {i - 13..i})"

definition highMax :: "('a ohlcv_scheme) list \<Rightarrow> nat \<Rightarrow> real" where
  "highMax df i = Max ((\<lambda>j. the (High (df ! j))) ` {i - 13..i})"

definition consistent_row :: "'a ohlcv_scheme \<Rightarrow> bool" where
  "consistent_row r =
     (case (Low r, Close r, High r) of
        (Some l, Some c, Some h) \<Rightarrow> l \<le> c \<and> c \<le> h
      | _ \<Rightarrow> False)"

text \<open>Ticker FLAT: fourteen days with High and Low at 10 and a Close of 11.\<close>

definition FLAT_panel :: "dated_row list" where
  "FLAT_panel =
     map (\<lambda>d. \<lparr>Ticker = ''FLAT'', Open = Some 10, High = Some 10, Low = Some 10,
                Close = Some 11, Volume = Some 500, Date = (2024, 5, d)\<rparr>)
         [1..<15]"

text \<open>Ticker WIDE: fourteen days with Low 8 and High 12, closing at the high.\<close>

definition WIDE_panel :: "dated_row list" where
  "WIDE_panel =
     map (\<lambda>d. \<lparr>Ticker = ''WIDE'', Open = Some 10, High = Some 12, Low = Some 8,
                Close = Some 12, Volume = Some 500, Date = (2024, 6, d)\<rparr>)
         [1..<15]"

section \<open>Cleaning only removes rows\<close>

lemma dropna_columns: "columns (dropna s df) = columns df"
  by (simp add: dropna_def)

lemma dropna_no_null:
  assumes "c \<in> set s"
  shows "isnull_sum c (dropna s df) = 0"
  using assms by (auto simp: isnull_sum_def dropna_def list_all_iff filter_empty_conv)

lemma fill_loop_no_null:
  assumes "\<And>c. c \<in> set cs \<Longrightarrow> isnull_sum c df = 0"
  shows "fill_loop cs df = Inr df"
  using assms by (induction cs) auto

lemma subseq_drop_duplicates_from: "subseq (drop_duplicates_from seen rs) rs"
  by (induction rs arbitrary: seen) auto

lemma subseq_set_mono: "subseq xs ys \<Longrightarrow> set xs \<subseteq> set ys"
  by (induction rule: list_emb.induct) auto

lemma numerical_cols_critical: "set numerical_cols \<subseteq> set critical_columns"
  by (simp add: numerical_cols_def critical_columns_def)

text \<open>
  C10. \<open>clean_data\<close> returns a table whenever the seven critical columns are present; the
  mean-fill loop then finds no missing value and returns the table it was given; the result
  has the columns of the input and its rows are a subsequence of the input's rows: rows
  are removed, no cell of a surviving row is changed.
\<close>

theorem clean_data_only_removes_rows:
  assumes "set critical_columns \<subseteq> set (columns df)"
  shows "\<exists>out. clean_data df = Inr out
           \<and> fill_loop numerical_cols (dropna critical_columns df) = Inr (dropna critical_columns df)
           \<and> columns out = columns df
           \<and> subseq (rows out) (rows df)
           \<and> set (rows out) \<subseteq> set (rows df)"
proof -
  let ?d = "dropna critical_columns df"
  have fl: "fill_loop numerical_cols ?d = Inr ?d"
    using numerical_cols_critical by (intro fill_loop_no_null dropna_no_null) auto
  have all: "list_all (\<lambda>c. c \<in> set (columns df)) critical_columns"
    using assms by (auto simp: list_all_iff)
  have cd: "clean_data df = Inr (?d\<lparr>rows := drop_duplicates (rows ?d)\<rparr>)"
    using all fl by (simp add: clean_data_def)
  have s1: "subseq (drop_duplicates (rows ?d)) (rows ?d)"
    by (simp add: drop_duplicates_def subseq_drop_duplicates_from)
  have s2: "subseq (rows ?d) (rows df)"
    by (simp add: dropna_def)
  have s: "subseq (drop_duplicates (rows ?d)) (rows df)"
    using s1 s2 by (rule subseq_order.trans)
  have "set (drop_duplicates (rows ?d)) \<subseteq> set (rows df)"
    using s by (rule subseq_set_mono)
  with cd fl s show ?thesis by (simp add: dropna_columns)
qed

theorem clean_data_only_removes_rows_witness:
  "set critical_columns \<subseteq> set (columns \<lparr>columns = critical_columns, rows =
       [[Some (Str ''AAA''), Some (Num 20240102), Some (Num 1), Some (Num 2), Some (Num 1),
         Some (Num 2), Some (Num 100)],
        [Some (Str ''AAA''), Some (Num 20240103), Some (Num 2), Some (Num 3), Some (Num 2),
         None, Some (Num 100)],
        [Some (Str ''AAA''), Some (Num 20240102), Some (Num 1), Some (Num 2), Some (Num 1),
         Some (Num 2), Some (Num 100)]]\<rparr>)
   \<and> (\<exists>out. clean_data \<lparr>columns = critical_columns, rows =
       [[Some (Str ''AAA''), Some (Num 20240102), Some (Num 1), Some (Num 2), Some (Num 1),
         Some (Num 2), Some (Num 100)],
        [Some (Str ''AAA''), Some (Num 20240103), Some (Num 2), Some (Num 3), Some (Num 2),
         None, Some (Num 100)],
        [Some (Str ''AAA''), Some (Num 20240102), Some (Num 1), Some (Num 2), Some (Num 1),
         Some (Num 2), Some (Num 100)]]\<rparr> = Inr out
       \<and> columns out = critical_columns
       \<and> set (rows out) \<subseteq>
           {[Some (Str ''AAA''), Some (Num 20240102), Some (Num 1), Some (Num 2), Some (Num 1),
             Some (Num 2), Some (Num 100)],
            [Some (Str ''AAA''), Some (Num 20240103), Some (Num 2), Some (Num 3), Some (Num 2),
             None, Some (Num 100)]})"
  using clean_data_only_removes_rows
    [of "\<lparr>columns = critical_columns, rows =
       [[Some (Str ''AAA''), Some (Num 20240102), Some (Num 1), Some (Num 2), Some (Num 1),
         Some (Num 2), Some (Num 100)],
        [Some (Str ''AAA''), Some (Num 20240103), Some (Num 2), Some (Num 3), Some (Num 2),
         None, Some (Num 100)],
        [Some (Str ''AAA''), Some (Num 20240102), Some (Num 1), Some (Num 2), Some (Num 1),
         Some (Num 2), Some (Num 100)]]\<rparr>"]
  by auto

section \<open>Missing columns and empty files in the loaders\<close>

lemma load_loop_kept:
  "load_loop (filter (\<lambda>(f, c). suffix ''.csv'' f) dir) acc = acc @ List.map_filter usable dir"
proof (induction dir arbitrary: acc)
  case Nil
  show ?case by (simp add: List.map_filter_simps)
next
  case (Cons a dir)
  obtain f c where a: "a = (f, c)" by (cases a)
  show ?case
  proof (cases c)
    case (Raises e)
    with a Cons show ?thesis by (simp add: List.map_filter_simps)
  next
    case (Parsed df)
    have "required_columns \<subseteq> set (columns df) \<Longrightarrow> columns df \<noteq> []"
      by (auto simp: required_columns_def)
    with a Cons Parsed show ?thesis
      by (auto simp: List.map_filter_simps empty_frame_def)
  qed
qed

lemma load_loop_cleaning_faulty:
  assumes "\<exists>x \<in> set fs. faulty x" and "\<forall>(f, c) \<in> set fs. suffix ''.csv'' f"
  shows "\<exists>e. load_loop_cleaning fs acc = Inl e"
  using assms
proof (induction fs acc rule: load_loop_cleaning.induct)
  case (1 data_frames)
  then show ?case by simp
next
  case (2 fname e fs data_frames)
  show ?case by simp
next
  case (3 fname df0 fs data_frames)
  show ?case
  proof (cases "set critical_columns \<subseteq> set (columns (clean_column_names df0))")
    case True
    then have m: "filter (\<lambda>col. col \<notin> set (columns (clean_column_names df0))) critical_columns = []"
      by (auto simp: filter_empty_conv)
    from True "3.prems" have "\<exists>x \<in> set fs. faulty x" by auto
    moreover from "3.prems" have "\<forall>(f, c) \<in> set fs. suffix ''.csv'' f" by auto
    ultimately have "\<exists>e. load_loop_cleaning fs (data_frames @ [clean_column_names df0]) = Inl e"
      using "3.IH" [OF refl refl] m by blast
    with m show ?thesis by (simp add: Let_def)
  next
    case False
    then have "filter (\<lambda>col. col \<notin> set (columns (clean_column_names df0))) critical_columns \<noteq> []"
      by (auto simp: filter_empty_conv)
    then show ?thesis by (simp add: Let_def)
  qed
qed

text \<open>
  C9, as the code has it. \<open>load_data\<close> of data_cleaning.py raises as soon as the directory
  holds a CSV file that cannot be read or that lacks a critical column, and when it holds
  no CSV file. \<open>load_data\<close> of data_processing.py skips such files and the files without
  rows; it raises only when no file is left, and otherwise returns the concatenation of the
  files that are left.
\<close>

theorem load_data_missing_column_policy:
  "((\<exists>x \<in> set dir. faulty x) \<longrightarrow> (\<exists>e. load_data_cleaning dir = Inl e))
   \<and> (filter (\<lambda>(f, c). suffix ''.csv'' f) dir = [] \<longrightarrow>
        load_data_cleaning dir = Inl (ValueError ''No CSV files found in the directory.''))
   \<and> load_data dir =
       (if List.map_filter usable dir = []
        then Inl (ValueError ''No valid CSV files found in the directory.'')
        else Inr (concat_frames (List.map_filter usable dir)))"
proof (intro conjI)
  show "(\<exists>x \<in> set dir. faulty x) \<longrightarrow> (\<exists>e. load_data_cleaning dir = Inl e)"
  proof
    assume "\<exists>x \<in> set dir. faulty x"
    then obtain x where x: "x \<in> set dir" "faulty x" by blast
    let ?fs = "filter (\<lambda>(f, c). suffix ''.csv'' f) dir"
    obtain f c where xc: "x = (f, c)" by (cases x)
    have "suffix ''.csv'' f" using x(2) xc by (cases c) simp_all
    then have "x \<in> set ?fs" using x(1) xc by simp
    then have "\<exists>x \<in> set ?fs. faulty x" using x(2) by blast
    moreover have "\<forall>(f, c) \<in> set ?fs. suffix ''.csv'' f" by auto
    ultimately obtain e where "load_loop_cleaning ?fs [] = Inl e"
      using load_loop_cleaning_faulty by blast
    then show "\<exists>e. load_data_cleaning dir = Inl e"
      by (simp add: load_data_cleaning_def Let_def)
  qed
next
  show "filter (\<lambda>(f, c). suffix ''.csv'' f) dir = [] \<longrightarrow>
        load_data_cleaning dir = Inl (ValueError ''No CSV files found in the directory.'')"
    by (simp add: load_data_cleaning_def)
next
  show "load_data dir =
       (if List.map_filter usable dir = []
        then Inl (ValueError ''No valid CSV files found in the directory.'')
        else Inr (concat_frames (List.map_filter usable dir)))"
    by (simp add: load_data_def Let_def load_loop_kept)
qed

theorem load_data_missing_column_policy_witness:
  "(\<exists>x \<in> set [(''old.csv'', Raises (ValueError ''No columns to parse from file'')),
                 (''new.csv'', Parsed \<lparr>columns = critical_columns, rows =
                    [[Some (Str ''CCC''), Some (Num 20240105), Some (Num 3), Some (Num 4),
                      Some (Num 3), Some (Num 4), Some (Num 50)]]\<rparr>)]. faulty x)
   \<and> (\<exists>e. load_data_cleaning
          [(''old.csv'', Raises (ValueError ''No columns to parse from file'')),
           (''new.csv'', Parsed \<lparr>columns = critical_columns, rows =
              [[Some (Str ''CCC''), Some (Num 20240105), Some (Num 3), Some (Num 4),
                Some (Num 3), Some (Num 4), Some (Num 50)]]\<rparr>)] = Inl e)
   \<and> (\<exists>out. load_data
          [(''old.csv'', Raises (ValueError ''No columns to parse from file'')),
           (''new.csv'', Parsed \<lparr>columns = critical_columns, rows =
              [[Some (Str ''CCC''), Some (Num 20240105), Some (Num 3), Some (Num 4),
                Some (Num 3), Some (Num 4), Some (Num 50)]]\<rparr>)] = Inr out)"
  using load_data_missing_column_policy
    [of "[(''old.csv'', Raises (ValueError ''No columns to parse from file'')),
          (''new.csv'', Parsed \<lparr>columns = critical_columns, rows =
             [[Some (Str ''CCC''), Some (Num 20240105), Some (Num 3), Some (Num 4),
               Some (Num 3), Some (Num 4), Some (Num 50)]]\<rparr>)]"]
  by (simp add: List.map_filter_simps critical_columns_def required_columns_def suffix_def)

text \<open>
  A directory with a file that lacks six of the required columns and a complete file:
  \<open>load_data\<close> of data_processing.py returns the table of the complete file.
\<close>

theorem load_data_skips_file_counterexample:
  "faulty (''a.csv'', Parsed \<lparr>columns = [''Ticker''], rows = [[Some (Str ''AAA'')]]\<rparr>)
   \<and> load_data
     [(''a.csv'', Parsed \<lparr>columns = [''Ticker''], rows = [[Some (Str ''AAA'')]]\<rparr>),
      (''b.csv'', Parsed \<lparr>columns = critical_columns, rows =
         [[Some (Str ''BBB''), Some (Num 20240102), Some (Num 1), Some (Num 2), Some (Num 1),
           Some (Num 2), Some (Num 100)]]\<rparr>)]
   = Inr \<lparr>columns = critical_columns, rows =
         [[Some (Str ''BBB''), Some (Num 20240102), Some (Num 1), Some (Num 2), Some (Num 1),
           Some (Num 2), Some (Num 100)]]\<rparr>"
  by (simp add: load_data_def critical_columns_def required_columns_def empty_frame_def
      concat_frames_def drop_duplicates_def get_cell_def clean_column_names_def suffix_def)

section \<open>The assignment of the MACD and stochastic columns\<close>

lemma length_add_indicators: "length (add_indicators df) = length df"
  by (simp add: add_indicators_def Let_def)

lemma Ticker_add_indicators: "map Ticker (add_indicators df) = map Ticker df"
proof -
  have "map Ticker (add_indicators df) = map (\<lambda>p. Ticker (df ! p)) [0..<length df]"
    by (simp add: add_indicators_def Let_def)
  also have "\<dots> = map Ticker (map ((!) df) [0..<length df])" by simp
  also have "\<dots> = map Ticker df" by (simp only: map_nth)
  finally show ?thesis .
qed

lemma length_groupby_apply: "length (groupby_apply f df) = card (set (map Ticker df))"
  by (simp add: groupby_apply_def group_keys_def length_remdups_card_conv)

lemma convert_dates_Ticker: "convert_dates df0 = Inr df1 \<Longrightarrow> map Ticker df1 = map Ticker df0"
  by (induction df0 arbitrary: df1) (auto split: sum.splits)

lemma sort_values_set: "set (sort_values df) = set df"
  by (simp add: sort_values_def)

lemma sort_values_length: "length (sort_values df) = length df"
  by (simp add: sort_values_def)

lemma groupby_apply_Nil_iff: "groupby_apply f df = [] \<longleftrightarrow> df = []"
proof -
  have "groupby_apply f df = [] \<longleftrightarrow> card (set (map Ticker df)) = 0"
    using length_groupby_apply [of f df] by (metis length_0_conv)
  then show ?thesis by simp
qed

lemma preprocess_data_length_mismatch:
  assumes cd: "convert_dates raw = Inr dated" and ne: "raw \<noteq> []"
    and nd: "\<not> distinct (map Ticker raw)"
  shows "preprocess_data rnd raw = Inl (ValueError ''Length of values does not match length of index'')"
proof -
  let ?df = "add_indicators (sort_values dated)"
  have len: "length ?df = length raw"
    using convert_dates_Ticker [OF cd] by (metis length_add_indicators sort_values_length length_map)
  have tick: "set (map Ticker ?df) = set (map Ticker raw)"
    using convert_dates_Ticker [OF cd] by (metis Ticker_add_indicators sort_values_set set_map)
  have "card (set (map Ticker raw)) \<noteq> length (map Ticker raw)"
    using nd card_distinct by blast
  then have mism: "card (set (map Ticker ?df)) \<noteq> length ?df"
    using len tick by (simp del: set_map)
  have nonempty: "?df \<noteq> []" using len ne by auto
  show ?thesis
    unfolding preprocess_data_def unzip_assign_def Let_def length_groupby_apply groupby_apply_Nil_iff
    using cd mism nonempty by simp
qed

lemma preprocess_data_returns_distinct:
  assumes "preprocess_data rnd raw = Inr out"
  shows "distinct (map Ticker raw)"
proof (rule ccontr)
  assume nd: "\<not> distinct (map Ticker raw)"
  then have ne: "raw \<noteq> []" by auto
  from assms obtain dated where "convert_dates raw = Inr dated"
    by (auto simp: preprocess_data_def split: sum.splits)
  from preprocess_data_length_mismatch [OF this ne nd] assms show False by simp
qed

text \<open>
  What a returned table looks like: it has the rows of the input, in ascending order of
  (Ticker, Date), with the same keys. By \<open>preprocess_data_returns_distinct\<close> this is
  only ever reached by a panel in which no ticker has two rows.
\<close>

lemma convert_dates_rows:
  "convert_dates raw = Inr dated \<Longrightarrow>
     length dated = length raw
     \<and> (\<forall>p < length raw. Ticker (dated ! p) = Ticker (raw ! p)
            \<and> to_datetime (DTYYYYMMDD (raw ! p)) = Inr (Date (dated ! p))
            \<and> Close (dated ! p) = Close (raw ! p))"
proof (induction raw arbitrary: dated)
  case Nil
  then show ?case by simp
next
  case (Cons r rs)
  then show ?case
    by (auto split: sum.splits simp: nth_Cons split: nat.splits)
qed

lemma preprocess_data_output_keys:
  assumes "preprocess_data rnd raw = Inr out" and "convert_dates raw = Inr dated"
  shows "length out = length raw
       \<and> sorted (map (\<lambda>r. (Ticker r, Date r)) out)
       \<and> mset (map (\<lambda>r. (Ticker r, Date r)) out) = mset (map (\<lambda>r. (Ticker r, Date r)) dated)"
proof -
  let ?s = "sort_values dated"
  let ?df = "add_indicators ?s"
  have keys_df: "map (\<lambda>r. (Ticker r, Date r)) ?df = map (\<lambda>r. (Ticker r, Date r)) ?s"
    by (rule nth_equalityI) (simp_all add: add_indicators_def Let_def)
  have keys_out: "map (\<lambda>r. (Ticker r, Date r)) out = map (\<lambda>r. (Ticker r, Date r)) ?df"
    using assms
    by (auto simp: preprocess_data_def Let_def split: sum.splits prod.splits intro!: nth_equalityI)
  have "length out = length ?df"
    using arg_cong [OF keys_out, of length] by simp
  then have out: "length out = length dated"
    by (simp add: length_add_indicators sort_values_length)
  have len: "length out = length raw"
    using convert_dates_rows [OF assms(2)] out by simp
  have srt: "sorted (map (\<lambda>r. (Ticker r, Date r)) ?s)"
    by (simp add: sort_values_def)
  have ms: "mset (map (\<lambda>r. (Ticker r, Date r)) ?s) = mset (map (\<lambda>r. (Ticker r, Date r)) dated)"
    by (simp add: sort_values_def)
  show ?thesis using len srt ms by (simp only: keys_out keys_df)
qed

text \<open>
  C1. The MACD, Signal_Line, %K and %D columns are not aligned to the rows at all: the
  statement assigns a tuple with one entry per group to a column with one cell per row.
  On a panel of one ticker with two rows the assignment of \<open>MACD\<close> raises, and
  \<open>preprocess_data\<close> returns no table.
\<close>

theorem preprocess_data_one_ticker_two_rows:
  "preprocess_data rnd
     [\<lparr>Ticker = ''AAA'', Open = Some 10, High = Some 11, Low = Some 9, Close = Some 10,
       Volume = Some 100, DTYYYYMMDD = 20240102\<rparr>,
      \<lparr>Ticker = ''AAA'', Open = Some 10, High = Some 12, Low = Some 10, Close = Some 11,
       Volume = Some 120, DTYYYYMMDD = 20240103\<rparr>]
   = Inl (ValueError ''Length of values does not match length of index'')"
  by (rule preprocess_data_length_mismatch [where
        dated = "[\<lparr>Ticker = ''AAA'', Open = Some 10, High = Some 11, Low = Some 9,
                   Close = Some 10, Volume = Some 100, Date = (2024, 1, 2)\<rparr>,
                  \<lparr>Ticker = ''AAA'', Open = Some 10, High = Some 12, Low = Some 10,
                   Close = Some 11, Volume = Some 120, Date = (2024, 1, 3)\<rparr>]"])
     (simp_all add: to_datetime_def strptime_Ymd_def Let_def days_in_month_def less_prod_def)

text \<open>
  C2. On a panel of two tickers and three rows \<open>preprocess_data\<close> raises at the same
  assignment: there is no output whose row count, order or keys could be compared with
  the input.
\<close>

theorem preprocess_data_two_tickers_three_rows:
  "preprocess_data rnd
     [\<lparr>Ticker = ''BBB'', Open = Some 20, High = Some 21, Low = Some 19, Close = Some 20,
       Volume = Some 300, DTYYYYMMDD = 20240102\<rparr>,
      \<lparr>Ticker = ''AAA'', Open = Some 10, High = Some 11, Low = Some 9, Close = Some 10,
       Volume = Some 100, DTYYYYMMDD = 20240102\<rparr>,
      \<lparr>Ticker = ''BBB'', Open = Some 20, High = Some 22, Low = Some 20, Close = Some 21,
       Volume = Some 310, DTYYYYMMDD = 20240103\<rparr>]
   = Inl (ValueError ''Length of values does not match length of index'')"
  by (rule preprocess_data_length_mismatch [where
        dated = "[\<lparr>Ticker = ''BBB'', Open = Some 20, High = Some 21, Low = Some 19,
                   Close = Some 20, Volume = Some 300, Date = (2024, 1, 2)\<rparr>,
                  \<lparr>Ticker = ''AAA'', Open = Some 10, High = Some 11, Low = Some 9,
                   Close = Some 10, Volume = Some 100, Date = (2024, 1, 2)\<rparr>,
                  \<lparr>Ticker = ''BBB'', Open = Some 20, High = Some 22, Low = Some 20,
                   Close = Some 21, Volume = Some 310, Date = (2024, 1, 3)\<rparr>]"])
     (simp_all add: to_datetime_def strptime_Ymd_def Let_def days_in_month_def less_prod_def)

section \<open>Columns made by transform, group by group\<close>

lemma positions_in_filter:
  "map (\<lambda>p. length (filter P (take p xs))) (filter (\<lambda>p. P (xs ! p)) [0..<length xs])
     = [0..<length (filter P xs)]"
proof (induction xs rule: rev_induct)
  case Nil
  show ?case by simp
next
  case (snoc x xs)
  have a: "filter (\<lambda>p. P ((xs @ [x]) ! p)) [0..<length xs] = filter (\<lambda>p. P (xs ! p)) [0..<length xs]"
    by (rule filter_cong) (auto simp: nth_append)
  have b: "map (\<lambda>p. length (filter P (take p (xs @ [x])))) (filter (\<lambda>p. P (xs ! p)) [0..<length xs])
         = map (\<lambda>p. length (filter P (take p xs))) (filter (\<lambda>p. P (xs ! p)) [0..<length xs])"
    by (rule map_cong) auto
  show ?case using snoc a b by simp
qed

lemma select_rows:
  "map (\<lambda>p. g (xs ! p)) (filter (\<lambda>p. P (xs ! p)) [0..<length xs]) = map g (filter P xs)"
proof -
  have "filter P (map ((!) xs) [0..<length xs]) = map ((!) xs) (filter (P \<circ> (!) xs) [0..<length xs])"
    by (rule filter_map)
  then have "filter P xs = map ((!) xs) (filter (\<lambda>p. P (xs ! p)) [0..<length xs])"
    by (simp add: map_nth o_def)
  then have "map g (filter P xs) = map g (map ((!) xs) (filter (\<lambda>p. P (xs ! p)) [0..<length xs]))"
    by simp
  then show ?thesis by (simp add: o_def)
qed

lemma transform_on_group:
  assumes len: "\<And>xs. length (f xs) = length xs"
  shows "map (\<lambda>p. transform f df ! p) (filter (\<lambda>p. Ticker (df ! p) = t) [0..<length df])
           = f (map Close (get_group t df))"
proof -
  let ?ps = "filter (\<lambda>p. Ticker (df ! p) = t) [0..<length df]"
  let ?F = "f (map Close (get_group t df))"
  have "map (\<lambda>p. transform f df ! p) ?ps = map (\<lambda>p. ?F ! length (filter (\<lambda>r. Ticker r = t) (take p df))) ?ps"
    by (rule map_cong) (auto simp: transform_def group_pos_def get_group_def)
  also have "\<dots> = map ((!) ?F) (map (\<lambda>p. length (filter (\<lambda>r. Ticker r = t) (take p df))) ?ps)"
    by (simp add: o_def)
  also have "\<dots> = map ((!) ?F) [0..<length (filter (\<lambda>r. Ticker r = t) df)]"
    using positions_in_filter [of "\<lambda>r. Ticker r = t" df] by simp
  also have "\<dots> = map ((!) ?F) [0..<length ?F]"
    by (simp add: len get_group_def)
  also have "\<dots> = ?F" by (rule map_nth)
  finally show ?thesis .
qed

lemma group_add_indicators:
  "get_group t (add_indicators df) =
     map (\<lambda>p. add_indicators df ! p) (filter (\<lambda>p. Ticker (df ! p) = t) [0..<length df])"
proof -
  have "get_group t (add_indicators df) = filter (\<lambda>r. Ticker r = t) (map ((!) (add_indicators df)) [0..<length (add_indicators df)])"
    by (simp add: get_group_def map_nth)
  also have "\<dots> = map ((!) (add_indicators df)) (filter (\<lambda>p. Ticker (add_indicators df ! p) = t) [0..<length df])"
    by (simp add: filter_map o_def add_indicators_def Let_def)
  also have "filter (\<lambda>p. Ticker (add_indicators df ! p) = t) [0..<length df] = filter (\<lambda>p. Ticker (df ! p) = t) [0..<length df]"
    by (rule filter_cong) (auto simp: add_indicators_def Let_def)
  finally show ?thesis .
qed

lemma length_rolling: "length (rolling W agg xs) = length xs"
  by (simp add: rolling_def)

lemma length_ewm_loop: "length (ewm_loop a w o_wt xs) = length xs"
  by (induction a w o_wt xs rule: ewm_loop.induct) (auto simp: Let_def)

lemma length_ewm_mean: "length (ewm_mean s xs) = length xs"
  by (simp add: ewm_mean_def length_ewm_loop split: list.splits)

lemma length_calculate_rsi: "length (calculate_rsi xs W) = length xs"
  by (simp add: calculate_rsi_def Let_def length_rolling diff_def)

lemma group_Close: "map Close (get_group t (add_indicators df)) = map Close (get_group t df)"
proof -
  have "map Close (get_group t (add_indicators df)) = map (\<lambda>p. Close (df ! p)) (filter (\<lambda>p. Ticker (df ! p) = t) [0..<length df])"
    unfolding group_add_indicators by (simp add: o_def add_indicators_def Let_def)
  then show ?thesis using select_rows [of Close df "\<lambda>r. Ticker r = t"] by (simp add: get_group_def)
qed

lemma group_SMA_10: "map SMA_10 (get_group t (add_indicators df)) = rolling 10 mean (map Close (get_group t df))"
proof -
  have "map SMA_10 (get_group t (add_indicators df)) = map (\<lambda>p. transform (rolling 10 mean) df ! p) (filter (\<lambda>p. Ticker (df ! p) = t) [0..<length df])"
    unfolding group_add_indicators by (simp add: o_def add_indicators_def Let_def)
  then show ?thesis by (simp add: transform_on_group length_rolling)
qed

lemma rolling_nth:
  "i < length xs \<Longrightarrow> rolling W agg xs ! i =
     (if Suc i < W then None
      else if list_all (\<lambda>x. x \<noteq> None) (window W xs i) then agg (map the (window W xs i))
      else None)"
  by (simp add: rolling_def)

lemma window_nth:
  assumes "W \<le> Suc i" and "i < length xs"
  shows "window W xs i = map ((!) xs) [Suc i - W..<Suc i]"
proof (rule nth_equalityI)
  show "length (window W xs i) = length (map ((!) xs) [Suc i - W..<Suc i])"
    using assms by (auto simp: window_def)
next
  fix j assume "j < length (window W xs i)"
  then have "j < W" by (simp add: window_def)
  then show "window W xs i ! j = map ((!) xs) [Suc i - W..<Suc i] ! j"
    using assms by (simp add: window_def del: upt_Suc)
qed

lemma window_all_present:
  assumes "W \<le> Suc i" and "i < length xs"
  shows "list_all (\<lambda>x. x \<noteq> None) (window W xs i) \<longleftrightarrow> (\<forall>j \<in> {Suc i - W..i}. xs ! j \<noteq> None)"
  using assms by (auto simp: window_nth list_all_iff simp del: upt_Suc)

lemma window_values:
  assumes "W \<le> Suc i" and "i < length xs"
  shows "map the (window W xs i) = map (\<lambda>j. the (xs ! j)) [Suc i - W..<Suc i]"
  using assms by (simp add: window_nth o_def del: upt_Suc)

lemma rolling_mean_10:
  assumes "i < length xs"
  shows "rolling 10 mean xs ! i =
     (if i < 9 then None
      else if \<forall>j \<in> {i - 9..i}. xs ! j \<noteq> None then Some ((\<Sum>j = i - 9..i. the (xs ! j)) / 10)
      else None)"
proof (cases "i < 9")
  case True
  then show ?thesis using assms by (simp add: rolling_nth)
next
  case False
  then have w: "(10::nat) \<le> Suc i" by simp
  have s: "Suc i - 10 = i - 9" by simp
  have sm: "sum_list (map (\<lambda>j. the (xs ! j)) [i - 9..<Suc i]) = (\<Sum>j = i - 9..i. the (xs ! j))"
    by (simp only: interv_sum_list_conv_sum_set_nat set_upt atLeastLessThanSuc_atLeastAtMost)
  have len: "length (map (\<lambda>j. the (xs ! j)) [i - 9..<Suc i]) = 10"
    using False by (simp del: upt_Suc)
  have vals: "map the (window 10 xs i) = map (\<lambda>j. the (xs ! j)) [i - 9..<Suc i]"
    using window_values [OF w assms] by (simp only: s)
  have ne: "map (\<lambda>j. the (xs ! j)) [i - 9..<Suc i] \<noteq> []"
    using len by (metis length_0_conv zero_neq_numeral)
  have m: "mean (map the (window 10 xs i)) = Some ((\<Sum>j = i - 9..i. the (xs ! j)) / 10)"
    unfolding vals mean_def using ne by (simp only: if_False len sm of_nat_numeral)
  have ap: "list_all (\<lambda>x. x \<noteq> None) (window 10 xs i) \<longleftrightarrow> (\<forall>j \<in> {i - 9..i}. xs ! j \<noteq> None)"
    using window_all_present [OF w assms] by (simp only: s)
  have "rolling 10 mean xs ! i =
     (if list_all (\<lambda>x. x \<noteq> None) (window 10 xs i) then mean (map the (window 10 xs i)) else None)"
    using False assms by (simp add: rolling_nth)
  then show ?thesis using False by (simp only: m ap if_False)
qed

text \<open>
  C3. In the table after the indicator statements, within the rows of any one ticker (in
  table order; \<open>preprocess_data\<close> has sorted them by date), \<open>SMA_10\<close> is missing at the
  places 0 to 8, and at a place \<open>i \<ge> 9\<close> it is the mean of the Close values of that ticker
  at the places \<open>i - 9\<close> to \<open>i\<close> (missing when one of these ten is missing).
\<close>

theorem SMA_10_window_mean:
  assumes "i < length (get_group t (add_indicators df))"
  shows "(i < 9 \<longrightarrow> SMA_10 (get_group t (add_indicators df) ! i) = None)
       \<and> (9 \<le> i \<longrightarrow> SMA_10 (get_group t (add_indicators df) ! i) =
           (if \<forall>j \<in> {i - 9..i}. Close (get_group t (add_indicators df) ! j) \<noteq> None
            then Some ((\<Sum>j = i - 9..i. the (Close (get_group t (add_indicators df) ! j))) / 10)
            else None))"
proof -
  let ?g = "get_group t (add_indicators df)"
  let ?cs = "map Close ?g"
  have i: "i < length ?cs" using assms by simp
  have "SMA_10 (?g ! i) = map SMA_10 ?g ! i" using assms by simp
  also have "\<dots> = rolling 10 mean ?cs ! i" by (simp only: group_SMA_10 group_Close)
  finally have sma: "SMA_10 (?g ! i) = rolling 10 mean ?cs ! i" .
  have cs: "?cs ! j = Close (?g ! j)" if "j \<in> {i - 9..i}" for j
    using that assms by simp
  have all: "(\<forall>j \<in> {i - 9..i}. ?cs ! j \<noteq> None) \<longleftrightarrow> (\<forall>j \<in> {i - 9..i}. Close (?g ! j) \<noteq> None)"
    by (rule ball_cong) (simp_all only: cs)
  have sm: "(\<Sum>j = i - 9..i. the (?cs ! j)) = (\<Sum>j = i - 9..i. the (Close (?g ! j)))"
    by (rule sum.cong) (simp_all only: cs)
  have r: "rolling 10 mean ?cs ! i =
     (if i < 9 then None
      else if \<forall>j \<in> {i - 9..i}. Close (?g ! j) \<noteq> None
           then Some ((\<Sum>j = i - 9..i. the (Close (?g ! j))) / 10)
      else None)"
    using rolling_mean_10 [OF i] by (simp only: all sm)
  show ?thesis
  proof (cases "i < 9")
    case True
    then show ?thesis unfolding sma r by simp
  next
    case False
    then have "9 \<le> i" by simp
    with False show ?thesis unfolding sma r by (simp only: if_False simp_thms)
  qed
qed

lemma AAA_closes:
  "map Close (get_group ''AAA'' (add_indicators AAA_panel)) =
     [Some 10, Some 11, Some 9, Some 12, Some 13, Some 11, Some 14, Some 15, Some 13, Some 16,
      Some 17, Some 15]"
  unfolding group_Close by (simp add: get_group_def AAA_panel_def)

theorem SMA_10_window_mean_witness:
  "9 < length (get_group ''AAA'' (add_indicators AAA_panel))
   \<and> SMA_10 (get_group ''AAA'' (add_indicators AAA_panel) ! 9) = Some (62 / 5)"
proof -
  let ?g = "get_group ''AAA'' (add_indicators AAA_panel)"
  have len: "length ?g = 12"
    using arg_cong [OF AAA_closes, of length] by simp
  then have i: "9 < length ?g" by simp
  have c: "Close (?g ! j) = map Close ?g ! j" if "j < 12" for j
    using that len by simp
  have set: "{9 - 9..9::nat} = {0, 1, 2, 3, 4, 5, 6, 7, 8, 9}" by auto
  have cl: "\<forall>j \<in> {9 - 9..9}. Close (?g ! j) \<noteq> None"
    unfolding set by (simp add: c AAA_closes)
  have sm: "(\<Sum>j = 9 - 9..9. the (Close (?g ! j))) = 124"
    unfolding set by (simp add: c AAA_closes)
  from SMA_10_window_mean [OF i] cl sm i show ?thesis by simp
qed

section \<open>The exponential moving average is the recurrence of the specification\<close>

lemma EMA_spec_shift:
  "EMA_spec a ((a * c + (1 - a) * w) # r) k = EMA_spec a (w # c # r) (Suc k)"
  by (induction k) simp_all

lemma ewm_step:
  "ewm_loop a (Some w) 1 (Some c # rest) =
     Some (a * c + (1 - a) * w) # ewm_loop a (Some (a * c + (1 - a) * w)) 1 rest"
proof -
  have "(if w \<noteq> c then ((1 - a) * w + a * c) / (1 - a + a) else w) = a * c + (1 - a) * w"
    by (simp add: algebra_simps)
  then show ?thesis by (simp add: Let_def)
qed

lemma ewm_loop_spec:
  "i < length rest \<Longrightarrow>
     ewm_loop a (Some w) 1 (map Some rest) ! i = Some (EMA_spec a (w # rest) (Suc i))"
proof (induction rest arbitrary: w i)
  case Nil
  then show ?case by simp
next
  case (Cons c r)
  show ?case
  proof (cases i)
    case 0
    then show ?thesis by (simp add: ewm_step del: ewm_loop.simps)
  next
    case (Suc k)
    then have "k < length r" using Cons.prems by simp
    from Cons.IH [OF this, of "a * c + (1 - a) * w"]
    show ?thesis unfolding Suc by (simp add: ewm_step EMA_spec_shift del: EMA_spec.simps ewm_loop.simps)
  qed
qed

lemma ewm_mean_spec:
  assumes "i < length cs"
  shows "ewm_mean s (map Some cs) ! i = Some (EMA_spec (2 / (s + 1)) cs i)"
proof (cases cs)
  case Nil
  with assms show ?thesis by simp
next
  case (Cons c rest)
  show ?thesis
  proof (cases i)
    case 0
    then show ?thesis by (simp add: Cons ewm_mean_def)
  next
    case (Suc k)
    then have "k < length rest" using assms Cons by simp
    from ewm_loop_spec [OF this] show ?thesis
      unfolding Suc Cons by (simp add: ewm_mean_def del: EMA_spec.simps)
  qed
qed

lemma ewm_mean_series:
  "ewm_mean s (map Some cs) = map (\<lambda>i. Some (EMA_spec (2 / (s + 1)) cs i)) [0..<length cs]"
  by (rule nth_equalityI) (simp_all add: length_ewm_mean ewm_mean_spec)

lemma group_EMA_10:
  "map EMA_10 (get_group t (add_indicators df)) = ewm_mean 10 (map Close (get_group t df))"
proof -
  have "map EMA_10 (get_group t (add_indicators df)) =
      map (\<lambda>p. transform (ewm_mean 10) df ! p) (filter (\<lambda>p. Ticker (df ! p) = t) [0..<length df])"
    unfolding group_add_indicators by (simp add: o_def add_indicators_def Let_def)
  then show ?thesis by (simp add: transform_on_group length_ewm_mean)
qed

text \<open>
  C4. Within the rows of any one ticker whose Close cells are all present, \<open>EMA_10\<close> is
  present at every place, equals Close at the first place, and follows the recurrence with
  \<open>alpha = 2/11\<close> at every later place; a group of a single row is no exception.
\<close>

theorem EMA_10_recurrence:
  assumes "i < length (get_group t (add_indicators df))"
    and "\<forall>r \<in> set (get_group t (add_indicators df)). Close r \<noteq> None"
  shows "EMA_10 (get_group t (add_indicators df) ! i) \<noteq> None
       \<and> (i = 0 \<longrightarrow> EMA_10 (get_group t (add_indicators df) ! i)
                      = Close (get_group t (add_indicators df) ! i))
       \<and> (0 < i \<longrightarrow> EMA_10 (get_group t (add_indicators df) ! i)
                      = Some (2 / 11 * the (Close (get_group t (add_indicators df) ! i))
                              + (1 - 2 / 11) * the (EMA_10 (get_group t (add_indicators df) ! (i - 1)))))"
proof -
  let ?g = "get_group t (add_indicators df)"
  define cs where "cs = map (\<lambda>r. the (Close r)) ?g"
  have closes: "map Close ?g = map Some cs"
    using assms(2) by (auto simp: cs_def)
  have len: "length cs = length ?g" by (simp add: cs_def)
  have "map EMA_10 ?g = ewm_mean 10 (map Some cs)"
    using closes by (simp only: group_EMA_10 group_Close)
  then have ema: "EMA_10 (?g ! j) = Some (EMA_spec (2 / 11) cs j)" if "j < length ?g" for j
    using that ewm_mean_spec [of j cs 10] len by (metis nth_map numeral_plus_one semiring_norm(5))
  have cl: "Close (?g ! j) = Some (cs ! j)" if "j < length ?g" for j
    using that by (simp add: cs_def) (use assms(2) in auto)
  show ?thesis
  proof (cases i)
    case 0
    then show ?thesis using assms(1) by (simp add: ema cl)
  next
    case (Suc k)
    then have k: "k < length ?g" using assms(1) by simp
    show ?thesis using assms(1) k unfolding Suc by (simp add: ema cl)
  qed
qed

theorem EMA_10_recurrence_witness:
  "1 < length (get_group ''AAA'' (add_indicators AAA_panel))
   \<and> list_all (\<lambda>r. Close r \<noteq> None) (get_group ''AAA'' (add_indicators AAA_panel))
   \<and> EMA_10 (get_group ''AAA'' (add_indicators AAA_panel) ! 0) = Some 10
   \<and> EMA_10 (get_group ''AAA'' (add_indicators AAA_panel) ! 1) = Some (112 / 11)"
proof -
  let ?g = "get_group ''AAA'' (add_indicators AAA_panel)"
  have len: "length ?g = 12"
    using arg_cong [OF AAA_closes, of length] by simp
  then have i1: "1 < length ?g" and i0: "0 < length ?g" by simp_all
  have "None \<notin> set (map Close ?g)" unfolding AAA_closes by simp
  then have all: "\<forall>r \<in> set ?g. Close r \<noteq> None" by force
  have c0: "Close (?g ! 0) = Some 10"
    using arg_cong [OF AAA_closes, of "\<lambda>xs. xs ! 0"] i0 by simp
  have c1: "Close (?g ! 1) = Some 11"
    using arg_cong [OF AAA_closes, of "\<lambda>xs. xs ! 1"] i1 by simp
  have e0: "EMA_10 (?g ! 0) = Some 10"
    using EMA_10_recurrence [OF i0 all] c0 by simp
  have e1: "EMA_10 (?g ! 1) = Some (112 / 11)"
    using EMA_10_recurrence [OF i1 all] c1 e0 by simp
  from all have "list_all (\<lambda>r. Close r \<noteq> None) ?g" by (simp add: list_all_iff)
  with i1 e0 e1 show ?thesis by blast
qed

section \<open>MACD and its signal line\<close>

lemma macd_series:
  "fst (calculate_macd (map Some cs)) =
     map Some (map (\<lambda>j. EMA_spec (2 / 13) cs j - EMA_spec (2 / 27) cs j) [0..<length cs])"
proof -
  have "map2 opt_sub (map (\<lambda>i. Some (EMA_spec (2 / 13) cs i)) [0..<length cs])
                     (map (\<lambda>i. Some (EMA_spec (2 / 27) cs i)) [0..<length cs])
        = map (\<lambda>j. Some (EMA_spec (2 / 13) cs j - EMA_spec (2 / 27) cs j)) [0..<length cs]"
    by (simp add: zip_map_map zip_same_conv_map)
  then show ?thesis
    by (simp add: calculate_macd_def Let_def ewm_mean_series o_def)
qed

lemma signal_series:
  "snd (calculate_macd series) = ewm_mean 9 (fst (calculate_macd series))"
  by (simp add: calculate_macd_def Let_def)

text \<open>
  C5. On a Close series without missing cells, \<open>calculate_macd\<close> returns two series of
  the length of the input, present at every place: the first is the difference of the
  span-12 and the span-26 recurrences (\<open>alpha\<close> 2/13 and 2/27), the second is the span-9
  recurrence (\<open>alpha\<close> 2/10) over the first.
\<close>

theorem calculate_macd_is_EMA_difference:
  assumes "i < length cs"
  shows "length (fst (calculate_macd (map Some cs))) = length cs
       \<and> length (snd (calculate_macd (map Some cs))) = length cs
       \<and> fst (calculate_macd (map Some cs)) ! i
           = Some (EMA_spec (2 / 13) cs i - EMA_spec (2 / 27) cs i)
       \<and> snd (calculate_macd (map Some cs)) ! i
           = Some (EMA_spec (2 / 10)
                     (map (\<lambda>j. EMA_spec (2 / 13) cs j - EMA_spec (2 / 27) cs j) [0..<length cs]) i)"
proof -
  let ?M = "map (\<lambda>j. EMA_spec (2 / 13) cs j - EMA_spec (2 / 27) cs j) [0..<length cs]"
  have m: "fst (calculate_macd (map Some cs)) = map Some ?M" by (rule macd_series)
  have s: "snd (calculate_macd (map Some cs)) = ewm_mean 9 (map Some ?M)"
    by (simp only: signal_series m)
  have iM: "i < length ?M" using assms by simp
  have "ewm_mean 9 (map Some ?M) ! i = Some (EMA_spec (2 / (9 + 1)) ?M i)"
    using iM by (rule ewm_mean_spec)
  then have s_i: "snd (calculate_macd (map Some cs)) ! i = Some (EMA_spec (2 / 10) ?M i)"
    by (simp add: s)
  have m_i: "fst (calculate_macd (map Some cs)) ! i
           = Some (EMA_spec (2 / 13) cs i - EMA_spec (2 / 27) cs i)"
    using assms unfolding m by (simp del: EMA_spec.simps)
  have l1: "length (fst (calculate_macd (map Some cs))) = length cs" unfolding m by simp
  have l2: "length (snd (calculate_macd (map Some cs))) = length cs"
    unfolding s by (simp add: length_ewm_mean)
  from l1 l2 m_i s_i show ?thesis by blast
qed

theorem calculate_macd_is_EMA_difference_witness:
  "1 < length [10, 11 :: real]
   \<and> fst (calculate_macd (map Some [10, 11])) ! 1 = Some (28 / 351)
   \<and> snd (calculate_macd (map Some [10, 11])) ! 1 = Some (28 / 1755)"
  using calculate_macd_is_EMA_difference [of 1 "[10, 11]"]
  by (simp add: upt_rec)

section \<open>Bollinger bands\<close>

lemma length_group_positions:
  "length (filter (\<lambda>p. Ticker (df ! p) = t) [0..<length df]) = length (get_group t df)"
  using arg_cong [OF select_rows [of "\<lambda>r. r" df "\<lambda>r. Ticker r = t"], of length]
  by (simp add: get_group_def)

lemma length_group_add_indicators:
  "length (get_group t (add_indicators df)) = length (get_group t df)"
  using arg_cong [OF group_Close [of t df], of length] by simp

lemma group_nth:
  assumes "i < length (get_group t df)"
  shows "get_group t (add_indicators df) ! i
           = add_indicators df ! (filter (\<lambda>p. Ticker (df ! p) = t) [0..<length df] ! i)"
    and "filter (\<lambda>p. Ticker (df ! p) = t) [0..<length df] ! i < length df"
proof -
  let ?ps = "filter (\<lambda>p. Ticker (df ! p) = t) [0..<length df]"
  have i: "i < length ?ps" using assms by (simp only: length_group_positions)
  then show "get_group t (add_indicators df) ! i = add_indicators df ! (?ps ! i)"
    unfolding group_add_indicators by simp
  have "?ps ! i \<in> set ?ps" using i by (rule nth_mem)
  then show "?ps ! i < length df" by simp
qed

lemma transform_group_nth:
  assumes "\<And>xs. length (f xs) = length xs" and "i < length (get_group t df)"
  shows "transform f df ! (filter (\<lambda>p. Ticker (df ! p) = t) [0..<length df] ! i)
           = f (map Close (get_group t df)) ! i"
proof -
  let ?ps = "filter (\<lambda>p. Ticker (df ! p) = t) [0..<length df]"
  have i: "i < length ?ps" using assms(2) by (simp only: length_group_positions)
  have "map (\<lambda>p. transform f df ! p) ?ps ! i = f (map Close (get_group t df)) ! i"
    using transform_on_group [of f df t] assms(1) by simp
  then show ?thesis using i by simp
qed

lemma rolling_std_10:
  assumes "i < length xs"
  shows "rolling 10 std xs ! i = rollingStd10 xs i"
proof (cases "i < 9")
  case True
  then show ?thesis using assms by (simp add: rolling_nth rollingStd10_def)
next
  case False
  then have w: "(10::nat) \<le> Suc i" by simp
  have s: "Suc i - 10 = i - 9" by simp
  let ?vals = "map (\<lambda>j. the (xs ! j)) [i - 9..<Suc i]"
  have sm: "sum_list ?vals = (\<Sum>j = i - 9..i. the (xs ! j))"
    by (simp only: interv_sum_list_conv_sum_set_nat set_upt atLeastLessThanSuc_atLeastAtMost)
  have len: "length ?vals = 10"
    using False by (simp del: upt_Suc)
  have vals: "map the (window 10 xs i) = ?vals"
    using window_values [OF w assms] by (simp only: s)
  have sq: "sum_list (map (\<lambda>v. (v - m)\<^sup>2) ?vals) = (\<Sum>j = i - 9..i. (the (xs ! j) - m)\<^sup>2)" for m
  proof -
    have "map (\<lambda>v. (v - m)\<^sup>2) ?vals = map (\<lambda>j. (the (xs ! j) - m)\<^sup>2) [i - 9..<Suc i]"
      by (simp only: map_map o_def)
    then show ?thesis
      by (simp only: interv_sum_list_conv_sum_set_nat set_upt atLeastLessThanSuc_atLeastAtMost)
  qed
  have m: "std (map the (window 10 xs i)) =
      Some (sqrt ((\<Sum>j = i - 9..i. (the (xs ! j) - (\<Sum>k = i - 9..i. the (xs ! k)) / 10)\<^sup>2) / 9))"
    unfolding vals std_def by (simp only: len sm sq) simp
  have ap: "list_all (\<lambda>x. x \<noteq> None) (window 10 xs i) \<longleftrightarrow> (\<forall>j \<in> {i - 9..i}. xs ! j \<noteq> None)"
    using window_all_present [OF w assms] by (simp only: s)
  have "rolling 10 std xs ! i =
     (if list_all (\<lambda>x. x \<noteq> None) (window 10 xs i) then std (map the (window 10 xs i)) else None)"
    using False assms by (simp add: rolling_nth)
  then show ?thesis using False unfolding rollingStd10_def by (simp only: m ap if_False)
qed

text \<open>
  C8. Within the rows of any one ticker, \<open>BB_Middle\<close> is the \<open>SMA_10\<close> cell. At the places
  0 to 8, and wherever one of the ten closes of the window is missing, the three bands are
  missing. Elsewhere \<open>BB_Middle\<close> is the mean \<open>m\<close> of the ten closes ending at the place,
  \<open>BB_Upper\<close> is \<open>m + 2 s\<close> and \<open>BB_Lower\<close> is \<open>m - 2 s\<close>, for one and the same \<open>s\<close>: the
  sample standard deviation (divisor 9) of these ten closes.
\<close>

theorem Bollinger_bands:
  assumes "i < length (get_group t (add_indicators df))"
  shows "BB_Middle (get_group t (add_indicators df) ! i) = SMA_10 (get_group t (add_indicators df) ! i)
       \<and> (i < 9 \<longrightarrow> BB_Middle (get_group t (add_indicators df) ! i) = None
                   \<and> BB_Upper (get_group t (add_indicators df) ! i) = None
                   \<and> BB_Lower (get_group t (add_indicators df) ! i) = None)
       \<and> (9 \<le> i \<longrightarrow>
            (let m = (\<Sum>j = i - 9..i. the (Close (get_group t (add_indicators df) ! j))) / 10;
                 s = sqrt ((\<Sum>j = i - 9..i. (the (Close (get_group t (add_indicators df) ! j)) - m)\<^sup>2) / 9)
             in if \<forall>j \<in> {i - 9..i}. Close (get_group t (add_indicators df) ! j) \<noteq> None
                then BB_Middle (get_group t (add_indicators df) ! i) = Some m
                   \<and> BB_Upper (get_group t (add_indicators df) ! i) = Some (m + 2 * s)
                   \<and> BB_Lower (get_group t (add_indicators df) ! i) = Some (m - 2 * s)
                else BB_Middle (get_group t (add_indicators df) ! i) = None
                   \<and> BB_Upper (get_group t (add_indicators df) ! i) = None
                   \<and> BB_Lower (get_group t (add_indicators df) ! i) = None))"
proof -
  let ?g = "get_group t (add_indicators df)"
  let ?ps = "filter (\<lambda>p. Ticker (df ! p) = t) [0..<length df]"
  let ?cs = "map Close (get_group t df)"
  let ?r = "add_indicators df ! (?ps ! i)"
  have i: "i < length (get_group t df)"
    using assms by (simp only: length_group_add_indicators)
  then have i': "i < length ?cs" by simp
  have row: "?g ! i = ?r" and p: "?ps ! i < length df"
    using group_nth [OF i] by blast+
  have sd: "transform (rolling 10 std) df ! (?ps ! i) = rollingStd10 ?cs i"
    using transform_group_nth [of "rolling 10 std" i t df] i
    by (simp add: length_rolling rolling_std_10)
  have sm: "transform (rolling 10 mean) df ! (?ps ! i) = rolling 10 mean ?cs ! i"
    using transform_group_nth [of "rolling 10 mean" i t df] i
    by (simp add: length_rolling)
  have sma: "SMA_10 ?r = rolling 10 mean ?cs ! i"
    using p sm by (simp add: add_indicators_def Let_def)
  have mid: "BB_Middle ?r = rolling 10 mean ?cs ! i"
    using p sm by (simp add: add_indicators_def Let_def)
  have up: "BB_Upper ?r = opt_add (rolling 10 mean ?cs ! i) (opt_scale 2 (rollingStd10 ?cs i))"
    using p sd sm by (simp add: add_indicators_def Let_def)
  have lo: "BB_Lower ?r = opt_sub (rolling 10 mean ?cs ! i) (opt_scale 2 (rollingStd10 ?cs i))"
    using p sd sm by (simp add: add_indicators_def Let_def)
  have cl: "Close (?g ! j) = ?cs ! j" if "j \<in> {i - 9..i}" for j
  proof -
    have "j < length ?g" using that assms by simp
    then have "Close (?g ! j) = map Close ?g ! j" by simp
    then show ?thesis by (simp only: group_Close)
  qed
  have all_eq: "(\<forall>j \<in> {i - 9..i}. Close (?g ! j) \<noteq> None) \<longleftrightarrow> (\<forall>j \<in> {i - 9..i}. ?cs ! j \<noteq> None)"
    by (rule ball_cong) (simp_all only: cl)
  have m_eq: "(\<Sum>j = i - 9..i. the (Close (?g ! j))) = (\<Sum>j = i - 9..i. the (?cs ! j))"
    by (rule sum.cong) (simp_all only: cl)
  have s_eq: "(\<Sum>j = i - 9..i. (the (Close (?g ! j)) - m)\<^sup>2) = (\<Sum>j = i - 9..i. (the (?cs ! j) - m)\<^sup>2)"
    for m
    by (rule sum.cong) (simp_all only: cl)
  have first: "BB_Middle (?g ! i) = SMA_10 (?g ! i)"
    unfolding row by (simp only: mid sma)
  have early: "BB_Middle (?g ! i) = None \<and> BB_Upper (?g ! i) = None \<and> BB_Lower (?g ! i) = None"
    if "i < 9"
    unfolding row mid up lo rolling_mean_10 [OF i'] using that by simp
  have late: "(let m = (\<Sum>j = i - 9..i. the (Close (?g ! j))) / 10;
                   s = sqrt ((\<Sum>j = i - 9..i. (the (Close (?g ! j)) - m)\<^sup>2) / 9)
               in if \<forall>j \<in> {i - 9..i}. Close (?g ! j) \<noteq> None
                  then BB_Middle (?g ! i) = Some m \<and> BB_Upper (?g ! i) = Some (m + 2 * s)
                     \<and> BB_Lower (?g ! i) = Some (m - 2 * s)
                  else BB_Middle (?g ! i) = None \<and> BB_Upper (?g ! i) = None
                     \<and> BB_Lower (?g ! i) = None)"
    if "9 \<le> i"
  proof (cases "\<forall>j \<in> {i - 9..i}. ?cs ! j \<noteq> None")
    case True
    have n9: "\<not> i < 9" using that by simp
    have mv: "rolling 10 mean ?cs ! i = Some ((\<Sum>j = i - 9..i. the (?cs ! j)) / 10)"
      unfolding rolling_mean_10 [OF i'] if_not_P [OF n9] if_P [OF True] ..
    have sv: "rollingStd10 ?cs i =
        Some (sqrt ((\<Sum>j = i - 9..i. (the (?cs ! j) - (\<Sum>k = i - 9..i. the (?cs ! k)) / 10)\<^sup>2) / 9))"
      unfolding rollingStd10_def if_not_P [OF n9] if_P [OF True] ..
    show ?thesis
      unfolding Let_def all_eq m_eq s_eq row mid up lo mv sv if_P [OF True] by simp
  next
    case False
    have n9: "\<not> i < 9" using that by simp
    have mv: "rolling 10 mean ?cs ! i = None"
      unfolding rolling_mean_10 [OF i'] if_not_P [OF n9] if_not_P [OF False] ..
    show ?thesis
      unfolding Let_def all_eq row mid up lo mv if_not_P [OF False] by simp
  qed
  from first early late show ?thesis by blast
qed

theorem Bollinger_bands_witness:
  "9 < length (get_group ''AAA'' (add_indicators AAA_panel))
   \<and> BB_Middle (get_group ''AAA'' (add_indicators AAA_panel) ! 9) = Some (62 / 5)
   \<and> BB_Upper (get_group ''AAA'' (add_indicators AAA_panel) ! 9) = Some (62 / 5 + 2 * sqrt (74 / 15))
   \<and> BB_Lower (get_group ''AAA'' (add_indicators AAA_panel) ! 9) = Some (62 / 5 - 2 * sqrt (74 / 15))"
proof -
  let ?g = "get_group ''AAA'' (add_indicators AAA_panel)"
  have len: "length ?g = 12"
    using arg_cong [OF AAA_closes, of length] by simp
  then have i: "9 < length ?g" by simp
  have c: "Close (?g ! j) = map Close ?g ! j" if "j < 12" for j
    using that len by simp
  have set: "{9 - 9..9::nat} = {0, 1, 2, 3, 4, 5, 6, 7, 8, 9}" by auto
  have cl: "\<forall>j \<in> {9 - 9..9}. Close (?g ! j) \<noteq> None"
    unfolding set by (simp add: c AAA_closes)
  have sm: "(\<Sum>j = 9 - 9..9. the (Close (?g ! j))) = 124"
    unfolding set by (simp add: c AAA_closes)
  have sq: "(\<Sum>j = 9 - 9..9. (the (Close (?g ! j)) - 124 / 10)\<^sup>2) = 222 / 5"
    unfolding set by (simp add: c AAA_closes power2_eq_square)
  note B = Bollinger_bands [OF i, THEN conjunct2, THEN conjunct2, THEN mp, OF order_refl]
  have B': "BB_Middle (?g ! 9) = Some (124 / 10)
          \<and> BB_Upper (?g ! 9) = Some (124 / 10 + 2 * sqrt (222 / 5 / 9))
          \<and> BB_Lower (?g ! 9) = Some (124 / 10 - 2 * sqrt (222 / 5 / 9))"
    using B unfolding Let_def sm sq if_P [OF cl] .
  have r: "sqrt (222 / 5 / 9) = sqrt (74 / 15)" by simp
  have m: "(124::real) / 10 = 62 / 5" by simp
  from B' i show ?thesis unfolding r m by blast
qed

section \<open>The relative strength index\<close>

lemma rolling_mean_present:
  assumes "i < length vs" and "0 < W"
  shows "rolling W mean (map Some vs) ! i =
     (if Suc i < W then None else Some ((\<Sum>j = Suc i - W..i. vs ! j) / real W))"
proof (cases "Suc i < W")
  case True
  then show ?thesis using assms by (simp add: rolling_nth)
next
  case False
  then have w: "W \<le> Suc i" by simp
  have i': "i < length (map Some vs)" using assms by simp
  have win: "window W (map Some vs) i = map (\<lambda>j. Some (vs ! j)) [Suc i - W..<Suc i]"
    unfolding window_nth [OF w i'] by (rule map_cong) (use assms in auto)
  have ap: "list_all (\<lambda>x. x \<noteq> None) (window W (map Some vs) i)"
    unfolding win by (simp add: list_all_iff del: upt_Suc)
  have vals: "map the (window W (map Some vs) i) = map (\<lambda>j. vs ! j) [Suc i - W..<Suc i]"
    unfolding win by (simp add: o_def del: upt_Suc)
  have len: "length (map (\<lambda>j. vs ! j) [Suc i - W..<Suc i]) = W"
    using w by (simp del: upt_Suc)
  have ne: "map (\<lambda>j. vs ! j) [Suc i - W..<Suc i] \<noteq> []"
    using len assms(2) by (metis length_0_conv less_numeral_extra(3))
  have sm: "sum_list (map (\<lambda>j. vs ! j) [Suc i - W..<Suc i]) = (\<Sum>j = Suc i - W..i. vs ! j)"
    by (simp only: interv_sum_list_conv_sum_set_nat set_upt atLeastLessThanSuc_atLeastAtMost)
  have m: "mean (map the (window W (map Some vs) i)) = Some ((\<Sum>j = Suc i - W..i. vs ! j) / real W)"
    unfolding vals mean_def using ne by (simp only: if_False len sm)
  have "rolling W mean (map Some vs) ! i = mean (map the (window W (map Some vs) i))"
    using False i' ap by (simp only: rolling_nth if_False if_True)
  then show ?thesis using False by (simp only: m if_False)
qed

lemma gains_series:
  "map where_pos (diff cs) = map Some (map (gain_at cs) [0..<length cs])"
proof -
  have "where_pos (if j = 0 then None else opt_sub (cs ! j) (cs ! (j - 1))) = Some (gain_at cs j)" for j
    by (cases "opt_sub (cs ! j) (cs ! (j - 1))") (auto simp: gain_at_def max_def)
  then show ?thesis by (simp add: diff_def o_def)
qed

lemma losses_series:
  "map (\<lambda>d. opt_scale (- 1) (where_neg d)) (diff cs) = map Some (map (loss_at cs) [0..<length cs])"
proof -
  have "opt_scale (- 1) (where_neg (if j = 0 then None else opt_sub (cs ! j) (cs ! (j - 1))))
          = Some (loss_at cs j)" for j
    by (cases "opt_sub (cs ! j) (cs ! (j - 1))") (auto simp: loss_at_def max_def)
  then show ?thesis by (simp add: diff_def o_def)
qed

lemma avg_gain_series:
  assumes "i < length cs"
  shows "rolling 14 mean (map where_pos (diff cs)) ! i = (if i < 13 then None else Some (avgGain cs i))"
proof -
  have s: "Suc i - 14 = i - 13" by simp
  have "(\<Sum>j = i - 13..i. map (gain_at cs) [0..<length cs] ! j) = (\<Sum>j = i - 13..i. gain_at cs j)"
    by (rule sum.cong) (use assms in auto)
  then show ?thesis
    unfolding gains_series using rolling_mean_present [of i "map (gain_at cs) [0..<length cs]" 14] assms
    by (simp add: s avgGain_def)
qed

lemma avg_loss_series:
  assumes "i < length cs"
  shows "rolling 14 mean (map (\<lambda>d. opt_scale (- 1) (where_neg d)) (diff cs)) ! i
           = (if i < 13 then None else Some (avgLoss cs i))"
proof -
  have s: "Suc i - 14 = i - 13" by simp
  have "(\<Sum>j = i - 13..i. map (loss_at cs) [0..<length cs] ! j) = (\<Sum>j = i - 13..i. loss_at cs j)"
    by (rule sum.cong) (use assms in auto)
  then show ?thesis
    unfolding losses_series using rolling_mean_present [of i "map (loss_at cs) [0..<length cs]" 14] assms
    by (simp add: s avgLoss_def)
qed

lemma calculate_rsi_nth:
  assumes "i < length cs"
  shows "calculate_rsi cs 14 ! i =
     (if i < 13 then NaN
      else fsub (Fin 100) (fdiv (Fin 100) (fadd (Fin 1) (fdiv (Fin (avgGain cs i)) (Fin (avgLoss cs i))))))"
proof -
  let ?gain = "rolling 14 mean (map where_pos (diff cs))"
  let ?loss = "rolling 14 mean (map (\<lambda>d. opt_scale (- 1) (where_neg d)) (diff cs))"
  have lg: "length ?gain = length cs" and ll: "length ?loss = length cs"
    by (simp_all add: length_rolling diff_def)
  have "calculate_rsi cs 14 ! i =
      fsub (Fin 100) (fdiv (Fin 100) (fadd (Fin 1) (fdiv (of_opt (?gain ! i)) (of_opt (?loss ! i)))))"
    using assms lg ll by (simp add: calculate_rsi_def Let_def)
  then show ?thesis
    by (simp add: avg_gain_series [OF assms] avg_loss_series [OF assms] fsub_def)
qed

lemma avgGain_nonneg: "0 \<le> avgGain cs i"
  unfolding avgGain_def
  by (intro divide_nonneg_pos sum_nonneg) (auto simp: gain_at_def split: option.splits)

lemma avgLoss_nonneg: "0 \<le> avgLoss cs i"
  unfolding avgLoss_def
  by (intro divide_nonneg_pos sum_nonneg) (auto simp: loss_at_def split: option.splits)

lemma rsi_formula_pos:
  assumes "0 < L" and "0 \<le> G"
  shows "fsub (Fin 100) (fdiv (Fin 100) (fadd (Fin 1) (fdiv (Fin G) (Fin L))))
           = Fin (100 - 100 / (1 + G / L))"
    and "0 \<le> 100 - 100 / (1 + G / L)" and "100 - 100 / (1 + G / L) \<le> 100"
proof -
  have q: "0 \<le> G / L" using assms by simp
  then have d: "1 + G / L \<noteq> 0" by linarith
  show "fsub (Fin 100) (fdiv (Fin 100) (fadd (Fin 1) (fdiv (Fin G) (Fin L))))
           = Fin (100 - 100 / (1 + G / L))"
    using assms(1) d by (simp add: fsub_def)
  have "100 / (1 + G / L) \<le> 100 / 1"
    by (rule divide_left_mono) (use q in auto)
  then show "0 \<le> 100 - 100 / (1 + G / L)" by simp
  have "0 \<le> 100 / (1 + G / L)" using q by simp
  then show "100 - 100 / (1 + G / L) \<le> 100" by simp
qed

lemma rsi_formula_zero_loss:
  "0 < G \<Longrightarrow> fsub (Fin 100) (fdiv (Fin 100) (fadd (Fin 1) (fdiv (Fin G) (Fin 0)))) = Fin 100"
  "fsub (Fin 100) (fdiv (Fin 100) (fadd (Fin 1) (fdiv (Fin 0) (Fin 0)))) = NaN"
  by (simp_all add: fsub_def)

lemma group_RSI_14:
  assumes "i < length (get_group t (add_indicators df))"
  shows "RSI_14 (get_group t (add_indicators df) ! i)
           = calculate_rsi (map Close (get_group t (add_indicators df))) 14 ! i"
proof -
  let ?ps = "filter (\<lambda>p. Ticker (df ! p) = t) [0..<length df]"
  have i: "i < length (get_group t df)"
    using assms by (simp only: length_group_add_indicators)
  have row: "get_group t (add_indicators df) ! i = add_indicators df ! (?ps ! i)"
    and p: "?ps ! i < length df"
    using group_nth [OF i] by blast+
  have "RSI_14 (add_indicators df ! (?ps ! i)) = transform (\<lambda>x. calculate_rsi x 14) df ! (?ps ! i)"
    using p by (simp add: add_indicators_def Let_def)
  also have "\<dots> = calculate_rsi (map Close (get_group t df)) 14 ! i"
    using transform_group_nth [of "\<lambda>x. calculate_rsi x 14" i t df] i
    by (simp add: length_calculate_rsi)
  finally show ?thesis unfolding row group_Close .
qed

lemma UP_closes:
  "map Close (get_group ''UP'' (add_indicators UP_panel)) =
     [Some 1, Some 2, Some 3, Some 4, Some 5, Some 6, Some 7, Some 8, Some 9, Some 10,
      Some 11, Some 12, Some 13, Some 14, Some 13]"
  unfolding group_Close by (simp add: get_group_def UP_panel_def)

lemma UP_averages:
  "avgGain (map Close (get_group ''UP'' (add_indicators UP_panel))) 13 = 13 / 14"
  "avgLoss (map Close (get_group ''UP'' (add_indicators UP_panel))) 13 = 0"
  "avgGain (map Close (get_group ''UP'' (add_indicators UP_panel))) 14 = 13 / 14"
  "avgLoss (map Close (get_group ''UP'' (add_indicators UP_panel))) 14 = 1 / 14"
proof -
  have s13: "{13 - 13..13::nat} = {0, 1, 2, 3, 4, 5, 6, 7, 8, 9, 10, 11, 12, 13}" by auto arith
  have s14: "{14 - 13..14::nat} = {1, 2, 3, 4, 5, 6, 7, 8, 9, 10, 11, 12, 13, 14}" by auto arith
  show "avgGain (map Close (get_group ''UP'' (add_indicators UP_panel))) 13 = 13 / 14"
    unfolding UP_closes avgGain_def s13 by (simp add: gain_at_def)
  show "avgLoss (map Close (get_group ''UP'' (add_indicators UP_panel))) 13 = 0"
    unfolding UP_closes avgLoss_def s13 by (simp add: loss_at_def)
  show "avgGain (map Close (get_group ''UP'' (add_indicators UP_panel))) 14 = 13 / 14"
    unfolding UP_closes avgGain_def s14 by (simp add: gain_at_def)
  show "avgLoss (map Close (get_group ''UP'' (add_indicators UP_panel))) 14 = 1 / 14"
    unfolding UP_closes avgLoss_def s14 by (simp add: loss_at_def)
qed

text \<open>
  C6, as the code has it. Within the rows of any one ticker, \<open>RSI_14\<close> is missing at the
  places 0 to 12 for want of history, and no longer at place 13: the first difference of a
  group counts as a gain and a loss of 0, so the fourteen-day means exist from place 13 on. From there, with a positive mean loss
  \<open>RSI_14\<close> is \<open>100 - 100 / (1 + avgGain / avgLoss)\<close> and lies in [0, 100]; with mean loss
  0 and positive mean gain it is 100; with both 0 it is missing. It is never infinite.
\<close>

theorem RSI_14_cases:
  assumes "i < length (get_group t (add_indicators df))"
  shows "(i < 13 \<longrightarrow> RSI_14 (get_group t (add_indicators df) ! i) = NaN)
       \<and> (13 \<le> i \<and> 0 < avgLoss (map Close (get_group t (add_indicators df))) i \<longrightarrow>
            RSI_14 (get_group t (add_indicators df) ! i)
              = Fin (100 - 100 / (1 + avgGain (map Close (get_group t (add_indicators df))) i
                                       / avgLoss (map Close (get_group t (add_indicators df))) i)))
       \<and> (13 \<le> i \<and> avgLoss (map Close (get_group t (add_indicators df))) i = 0
             \<and> 0 < avgGain (map Close (get_group t (add_indicators df))) i \<longrightarrow>
            RSI_14 (get_group t (add_indicators df) ! i) = Fin 100)
       \<and> (13 \<le> i \<and> avgLoss (map Close (get_group t (add_indicators df))) i = 0
             \<and> avgGain (map Close (get_group t (add_indicators df))) i = 0 \<longrightarrow>
            RSI_14 (get_group t (add_indicators df) ! i) = NaN)
       \<and> (\<forall>v. RSI_14 (get_group t (add_indicators df) ! i) = Fin v \<longrightarrow> 0 \<le> v \<and> v \<le> 100)
       \<and> RSI_14 (get_group t (add_indicators df) ! i) \<noteq> PInf
       \<and> RSI_14 (get_group t (add_indicators df) ! i) \<noteq> NInf"
proof -
  let ?g = "get_group t (add_indicators df)"
  let ?cs = "map Close ?g"
  let ?G = "avgGain ?cs i" and ?L = "avgLoss ?cs i"
  have i: "i < length ?cs" using assms by simp
  have rsi: "RSI_14 (?g ! i) =
     (if i < 13 then NaN
      else fsub (Fin 100) (fdiv (Fin 100) (fadd (Fin 1) (fdiv (Fin ?G) (Fin ?L)))))"
    using group_RSI_14 [OF assms] calculate_rsi_nth [OF i] by simp
  have G: "0 \<le> ?G" by (rule avgGain_nonneg)
  have L: "0 \<le> ?L" by (rule avgLoss_nonneg)
  show ?thesis
  proof (cases "i < 13")
    case True
    then show ?thesis using rsi by simp
  next
    case False
    then have r: "RSI_14 (?g ! i) = fsub (Fin 100) (fdiv (Fin 100) (fadd (Fin 1) (fdiv (Fin ?G) (Fin ?L))))"
      using rsi by simp
    consider (pos) "0 < ?L" | (up) "?L = 0" "0 < ?G" | (flat) "?L = 0" "?G = 0"
      using G L by fastforce
    then show ?thesis
    proof cases
      case pos
      from rsi_formula_pos [OF pos G] r pos False show ?thesis by simp
    next
      case up
      from rsi_formula_zero_loss(1) [OF up(2)] r up False show ?thesis by simp
    next
      case flat
      from rsi_formula_zero_loss(2) r flat False show ?thesis by simp
    qed
  qed
qed

theorem RSI_14_cases_witness:
  "14 < length (get_group ''UP'' (add_indicators UP_panel))
   \<and> RSI_14 (get_group ''UP'' (add_indicators UP_panel) ! 14) = Fin (650 / 7)"
proof -
  have len: "length (get_group ''UP'' (add_indicators UP_panel)) = 15"
    using arg_cong [OF UP_closes, of length] by simp
  then have i: "14 < length (get_group ''UP'' (add_indicators UP_panel))" by simp
  from RSI_14_cases [OF i] i show ?thesis by (simp add: UP_averages)
qed

text \<open>
  At the fourteenth row of ticker UP (place 13) \<open>RSI_14\<close> is the number 100, not missing.
\<close>

theorem RSI_14_fourteenth_row_counterexample:
  "RSI_14 (get_group ''UP'' (add_indicators UP_panel) ! 13) = Fin 100"
proof -
  have len: "length (get_group ''UP'' (add_indicators UP_panel)) = 15"
    using arg_cong [OF UP_closes, of length] by simp
  then have i: "13 < length (get_group ''UP'' (add_indicators UP_panel))" by simp
  then have i': "13 < length (map Close (get_group ''UP'' (add_indicators UP_panel)))" by simp
  show ?thesis
    unfolding group_RSI_14 [OF i] calculate_rsi_nth [OF i'] UP_averages
    by (simp add: fsub_def)
qed

section \<open>The stochastic oscillator\<close>

lemma minimum_Min: "vs \<noteq> [] \<Longrightarrow> minimum vs = Some (Min (set vs))"
proof (induction vs)
  case Nil
  then show ?case by simp
next
  case (Cons v vs)
  show ?case
  proof (cases "vs = []")
    case True
    then show ?thesis by simp
  next
    case False
    with Cons.IH show ?thesis by (simp add: Min_insert)
  qed
qed

lemma maximum_Max: "vs \<noteq> [] \<Longrightarrow> maximum vs = Some (Max (set vs))"
proof (induction vs)
  case Nil
  then show ?case by simp
next
  case (Cons v vs)
  show ?case
  proof (cases "vs = []")
    case True
    then show ?thesis by simp
  next
    case False
    with Cons.IH show ?thesis by (simp add: Max_insert)
  qed
qed

lemma window_14_values:
  assumes "13 \<le> i" and "i < length xs"
  shows "set (map the (window 14 xs i)) = (\<lambda>j. the (xs ! j)) ` {i - 13..i}"
    and "map the (window 14 xs i) \<noteq> []"
    and "list_all (\<lambda>x. x \<noteq> None) (window 14 xs i) \<longleftrightarrow> (\<forall>j \<in> {i - 13..i}. xs ! j \<noteq> None)"
proof -
  have w: "(14::nat) \<le> Suc i" using assms(1) by simp
  have s: "Suc i - 14 = i - 13" by simp
  have vals: "map the (window 14 xs i) = map (\<lambda>j. the (xs ! j)) [i - 13..<Suc i]"
    using window_values [OF w assms(2)] by (simp only: s)
  show "set (map the (window 14 xs i)) = (\<lambda>j. the (xs ! j)) ` {i - 13..i}"
    unfolding vals by (simp only: set_map set_upt atLeastLessThanSuc_atLeastAtMost)
  have "length (map the (window 14 xs i)) = 14"
    unfolding vals using assms(1) by (simp del: upt_Suc)
  then show "map the (window 14 xs i) \<noteq> []" by (metis length_0_conv zero_neq_numeral)
  show "list_all (\<lambda>x. x \<noteq> None) (window 14 xs i) \<longleftrightarrow> (\<forall>j \<in> {i - 13..i}. xs ! j \<noteq> None)"
    using window_all_present [OF w assms(2)] by (simp only: s)
qed

lemma rolling_14_early: "i < 13 \<Longrightarrow> i < length xs \<Longrightarrow> rolling 14 agg xs ! i = None"
  by (simp add: rolling_nth)

lemma low_min_nth:
  assumes "13 \<le> i" and "i < length df" and "\<forall>j \<in> {i - 13..i}. Low (df ! j) \<noteq> None"
  shows "rolling 14 minimum (map Low df) ! i = Some (lowMin df i)"
proof -
  have i: "i < length (map Low df)" using assms(2) by simp
  have nth: "map Low df ! j = Low (df ! j)" if "j \<in> {i - 13..i}" for j
    using that assms(2) by simp
  have ap: "list_all (\<lambda>x. x \<noteq> None) (window 14 (map Low df) i)"
    unfolding window_14_values(3) [OF assms(1) i] using assms(3) nth by simp
  have "(\<lambda>j. the (map Low df ! j)) ` {i - 13..i} = (\<lambda>j. the (Low (df ! j))) ` {i - 13..i}"
    by (rule image_cong) (simp_all only: nth)
  then have "minimum (map the (window 14 (map Low df) i)) = Some (lowMin df i)"
    using minimum_Min [OF window_14_values(2) [OF assms(1) i]]
    by (simp only: window_14_values(1) [OF assms(1) i] lowMin_def)
  then show ?thesis using assms(1) i ap by (simp add: rolling_nth)
qed

lemma high_max_nth:
  assumes "13 \<le> i" and "i < length df" and "\<forall>j \<in> {i - 13..i}. High (df ! j) \<noteq> None"
  shows "rolling 14 maximum (map High df) ! i = Some (highMax df i)"
proof -
  have i: "i < length (map High df)" using assms(2) by simp
  have nth: "map High df ! j = High (df ! j)" if "j \<in> {i - 13..i}" for j
    using that assms(2) by simp
  have ap: "list_all (\<lambda>x. x \<noteq> None) (window 14 (map High df) i)"
    unfolding window_14_values(3) [OF assms(1) i] using assms(3) nth by simp
  have "(\<lambda>j. the (map High df ! j)) ` {i - 13..i} = (\<lambda>j. the (High (df ! j))) ` {i - 13..i}"
    by (rule image_cong) (simp_all only: nth)
  then have "maximum (map the (window 14 (map High df) i)) = Some (highMax df i)"
    using maximum_Max [OF window_14_values(2) [OF assms(1) i]]
    by (simp only: window_14_values(1) [OF assms(1) i] highMax_def)
  then show ?thesis using assms(1) i ap by (simp add: rolling_nth)
qed

lemma rounding_zero: "rounding u rnd \<Longrightarrow> rnd 0 = 0"
  unfolding rounding_def by (metis abs_zero abs_le_zero_iff diff_zero mult_zero_right)

lemma rounding_zero_iff:
  assumes "rounding u rnd"
  shows "rnd x = 0 \<longleftrightarrow> x = 0"
proof
  assume z: "rnd x = 0"
  have "\<bar>rnd x - x\<bar> \<le> u * \<bar>x\<bar>" using assms unfolding rounding_def by blast
  then have "\<bar>x\<bar> \<le> u * \<bar>x\<bar>" using z by simp
  moreover have "u < 1" using assms unfolding rounding_def by blast
  ultimately have "\<bar>x\<bar> * (1 - u) \<le> 0" and "0 < 1 - u" by (simp_all add: algebra_simps)
  then have "\<bar>x\<bar> \<le> 0" by (simp add: mult_le_0_iff)
  then show "x = 0" by simp
next
  assume "x = 0"
  then show "rnd x = 0" using rounding_zero [OF assms] by simp
qed

lemma rounding_mono: "rounding u rnd \<Longrightarrow> x \<le> y \<Longrightarrow> rnd x \<le> rnd y"
  unfolding rounding_def by (auto dest: monoD)

lemma rounding_nonneg: "rounding u rnd \<Longrightarrow> 0 \<le> x \<Longrightarrow> 0 \<le> rnd x"
  using rounding_mono [of u rnd 0 x] rounding_zero [of u rnd] by simp

lemma rounding_upper:
  assumes "rounding u rnd" and "0 \<le> x"
  shows "rnd x \<le> x * (1 + u)"
proof -
  have "\<bar>rnd x - x\<bar> \<le> u * \<bar>x\<bar>" using assms(1) unfolding rounding_def by blast
  then have "rnd x - x \<le> u * x" using assms(2) by simp
  then show ?thesis by (simp add: algebra_simps)
qed

lemma k_percent_nth:
  assumes "i < length df"
  shows "fst (calculate_stochastic_oscillator rnd df 14 3) ! i =
     fdiv_rnd rnd
       (of_opt (opt_scale_rnd rnd 100
                  (opt_sub_rnd rnd (Close (df ! i)) (rolling 14 minimum (map Low df) ! i))))
       (of_opt (opt_sub_rnd rnd (rolling 14 maximum (map High df) ! i)
                                (rolling 14 minimum (map Low df) ! i)))"
  using assms by (simp add: calculate_stochastic_oscillator_def Let_def)

lemma k_percent_early:
  assumes "i < length df" and "i < 13"
  shows "fst (calculate_stochastic_oscillator rnd df 14 3) ! i = NaN"
  unfolding k_percent_nth [OF assms(1)] using assms by (simp add: rolling_14_early fdiv_rnd_def)

lemma k_percent_value:
  assumes "i < length df" and "13 \<le> i"
    and "\<forall>j \<in> {i - 13..i}. Low (df ! j) \<noteq> None \<and> High (df ! j) \<noteq> None"
    and "Close (df ! i) = Some c"
  shows "fst (calculate_stochastic_oscillator rnd df 14 3) ! i =
     fdiv_rnd rnd (Fin (rnd (100 * rnd (c - lowMin df i)))) (Fin (rnd (highMax df i - lowMin df i)))"
proof -
  have lo: "rolling 14 minimum (map Low df) ! i = Some (lowMin df i)"
    using assms by (intro low_min_nth) auto
  have hi: "rolling 14 maximum (map High df) ! i = Some (highMax df i)"
    using assms by (intro high_max_nth) auto
  show ?thesis unfolding k_percent_nth [OF assms(1)] lo hi assms(4) by simp
qed

lemma consistent_rowD:
  assumes "consistent_row r"
  obtains l c h where "Low r = Some l" "Close r = Some c" "High r = Some h" "l \<le> c" "c \<le> h"
  using assms by (auto simp: consistent_row_def split: option.splits)

lemma close_between:
  assumes "\<forall>j \<in> {i - 13..i}. consistent_row (df ! j)"
  shows "lowMin df i \<le> the (Close (df ! i))" and "the (Close (df ! i)) \<le> highMax df i"
proof -
  have i: "i \<in> {i - 13..i}" by simp
  with assms have "consistent_row (df ! i)" by blast
  then obtain l c h where r: "Low (df ! i) = Some l" "Close (df ! i) = Some c"
      "High (df ! i) = Some h" "l \<le> c" "c \<le> h"
    by (rule consistent_rowD)
  have "lowMin df i \<le> the (Low (df ! i))"
    unfolding lowMin_def by (rule Min_le) (use i in auto)
  then show "lowMin df i \<le> the (Close (df ! i))" using r by simp
  have "the (High (df ! i)) \<le> highMax df i"
    unfolding highMax_def by (rule Max_ge) (use i in auto)
  then show "the (Close (df ! i)) \<le> highMax df i" using r by simp
qed

text \<open>
  The rounded quotient of \<open>%K\<close> for a close between the lowest low and the highest high
  that differ: it is not negative, and exceeds 100 by at most the rounding of the product
  and of the quotient.
\<close>

lemma rounded_quotient_bounds:
  assumes r: "rounding u rnd" and lo: "l \<le> c" and hi: "c \<le> h" and ne: "h \<noteq> l"
  shows "rnd (h - l) \<noteq> 0"
    and "0 \<le> rnd (rnd (100 * rnd (c - l)) / rnd (h - l))"
    and "rnd (rnd (100 * rnd (c - l)) / rnd (h - l)) \<le> 100 * (1 + u)\<^sup>2"
proof -
  define a where "a = rnd (c - l)"
  define d where "d = rnd (h - l)"
  define n where "n = rnd (100 * a)"
  define q where "q = n / d"
  have u: "0 \<le> u" using r unfolding rounding_def by blast
  have "h - l \<noteq> 0" using ne by simp
  then have d0: "d \<noteq> 0" unfolding d_def using rounding_zero_iff [OF r] by blast
  have "0 \<le> d" unfolding d_def using rounding_nonneg [OF r] lo hi by simp
  with d0 have dpos: "0 < d" by simp
  have a0: "0 \<le> a" unfolding a_def using rounding_nonneg [OF r] lo by simp
  have ad: "a \<le> d" unfolding a_def d_def using rounding_mono [OF r] hi by simp
  have a100: "0 \<le> 100 * a" using a0 by simp
  have n0: "0 \<le> n" unfolding n_def using rounding_nonneg [OF r a100] .
  have q0: "0 \<le> q" unfolding q_def using n0 dpos by simp
  have "n \<le> 100 * a * (1 + u)" unfolding n_def using rounding_upper [OF r a100] .
  also have "\<dots> \<le> 100 * d * (1 + u)" using ad u by (simp add: mult_right_mono)
  finally have "n \<le> (100 * (1 + u)) * d" by (simp add: algebra_simps)
  then have qb: "q \<le> 100 * (1 + u)" unfolding q_def using dpos by (simp only: pos_divide_le_eq)
  have "rnd q \<le> q * (1 + u)" using rounding_upper [OF r q0] .
  also have "\<dots> \<le> (100 * (1 + u)) * (1 + u)" using qb u by (intro mult_right_mono) simp_all
  finally have ub: "rnd q \<le> 100 * (1 + u)\<^sup>2" by (simp add: power2_eq_square algebra_simps)
  show "rnd (h - l) \<noteq> 0" using d0 unfolding d_def .
  show "0 \<le> rnd (rnd (100 * rnd (c - l)) / rnd (h - l))"
    using rounding_nonneg [OF r q0] unfolding q_def n_def a_def d_def .
  show "rnd (rnd (100 * rnd (c - l)) / rnd (h - l)) \<le> 100 * (1 + u)\<^sup>2"
    using ub unfolding q_def n_def a_def d_def .
qed

text \<open>
  C7, as the code has it. \<open>%K\<close> is missing at the places 0 to 12 of the rows it is
  computed from. From place 13 on, if every row of the window has its Low, Close and High
  present with Low \<open>\<le>\<close> Close \<open>\<le>\<close> High: when the highest High differs from the lowest Low,
  \<open>%K\<close> is a number, the rounded \<open>100 * (Close - lowMin) / (highMax - lowMin)\<close>; it is not
  negative and at most \<open>100 * (1 + u)\<^sup>2\<close> for the unit roundoff \<open>u\<close>, that is 100 in
  exact arithmetic and 100 up to rounding in floats; when they are equal, \<open>%K\<close> is the NaN
  that 0/0 gives.
\<close>

theorem K_percent_cases:
  assumes "i < length df" and "rounding u rnd"
  shows "(i < 13 \<longrightarrow> fst (calculate_stochastic_oscillator rnd df 14 3) ! i = NaN)
       \<and> (13 \<le> i \<and> (\<forall>j \<in> {i - 13..i}. consistent_row (df ! j)) \<and> highMax df i \<noteq> lowMin df i \<longrightarrow>
            fst (calculate_stochastic_oscillator rnd df 14 3) ! i
              = Fin (rnd (rnd (100 * rnd (the (Close (df ! i)) - lowMin df i))
                          / rnd (highMax df i - lowMin df i)))
            \<and> 0 \<le> rnd (rnd (100 * rnd (the (Close (df ! i)) - lowMin df i))
                       / rnd (highMax df i - lowMin df i))
            \<and> rnd (rnd (100 * rnd (the (Close (df ! i)) - lowMin df i))
                   / rnd (highMax df i - lowMin df i)) \<le> 100 * (1 + u)\<^sup>2)
       \<and> (13 \<le> i \<and> (\<forall>j \<in> {i - 13..i}. consistent_row (df ! j)) \<and> highMax df i = lowMin df i \<longrightarrow>
            fst (calculate_stochastic_oscillator rnd df 14 3) ! i = NaN)"
proof (cases "i < 13")
  case True
  then show ?thesis using k_percent_early [OF assms(1)] by simp
next
  case late: False
  then have i13: "13 \<le> i" by simp
  show ?thesis
  proof (cases "\<forall>j \<in> {i - 13..i}. consistent_row (df ! j)")
    case False
    with late show ?thesis by blast
  next
    case True
    have pres: "\<forall>j \<in> {i - 13..i}. Low (df ! j) \<noteq> None \<and> High (df ! j) \<noteq> None"
      using True by (auto elim: consistent_rowD)
    have "consistent_row (df ! i)" using True by simp
    then obtain c where c: "Close (df ! i) = Some c" by (auto elim: consistent_rowD)
    have k: "fst (calculate_stochastic_oscillator rnd df 14 3) ! i =
        fdiv_rnd rnd (Fin (rnd (100 * rnd (c - lowMin df i))))
                     (Fin (rnd (highMax df i - lowMin df i)))"
      using k_percent_value [OF assms(1) i13 pres c] .
    have lo: "lowMin df i \<le> c" and hi: "c \<le> highMax df i"
      using close_between [OF True] c by simp_all
    show ?thesis
    proof (cases "highMax df i = lowMin df i")
      case eq: True
      then have "c = lowMin df i" using lo hi by simp
      then have "fst (calculate_stochastic_oscillator rnd df 14 3) ! i = NaN"
        using k eq rounding_zero [OF assms(2)] by (simp add: fdiv_rnd_def)
      with eq late show ?thesis by simp
    next
      case ne: False
      note b = rounded_quotient_bounds [OF assms(2) lo hi ne]
      have "fst (calculate_stochastic_oscillator rnd df 14 3) ! i
              = Fin (rnd (rnd (100 * rnd (c - lowMin df i)) / rnd (highMax df i - lowMin df i)))"
        using k b(1) by (simp add: fdiv_rnd_def)
      with b(2) b(3) ne c late show ?thesis by simp
    qed
  qed
qed

lemma FLAT_row:
  "j < 14 \<Longrightarrow> FLAT_panel ! j = \<lparr>Ticker = ''FLAT'', Open = Some 10, High = Some 10, Low = Some 10,
                Close = Some 11, Volume = Some 500, Date = (2024, 5, Suc j)\<rparr>"
  by (simp add: FLAT_panel_def del: upt_Suc)

lemma WIDE_row:
  "j < 14 \<Longrightarrow> WIDE_panel ! j = \<lparr>Ticker = ''WIDE'', Open = Some 10, High = Some 12, Low = Some 8,
                Close = Some 12, Volume = Some 500, Date = (2024, 6, Suc j)\<rparr>"
  by (simp add: WIDE_panel_def del: upt_Suc)

lemma rounding_up_by_1024th: "rounding (1 / 1024) (\<lambda>x. x * (1025 / 1024))"
proof -
  have "\<bar>x * (1025 / 1024) - x\<bar> = 1 / 1024 * \<bar>x\<bar>" for x :: real
  proof -
    have "x * (1025 / 1024) - x = x / 1024" by simp
    then show ?thesis by (simp add: abs_mult)
  qed
  then show ?thesis by (simp add: rounding_def mono_def)
qed

lemma rounding_exact: "rounding 0 (\<lambda>x. x)"
  by (simp add: rounding_def mono_def)

theorem K_percent_cases_witness:
  "13 < length WIDE_panel
   \<and> rounding (1 / 1024) (\<lambda>x. x * (1025 / 1024))
   \<and> list_all consistent_row WIDE_panel
   \<and> highMax WIDE_panel 13 \<noteq> lowMin WIDE_panel 13
   \<and> fst (calculate_stochastic_oscillator (\<lambda>x. x * (1025 / 1024)) WIDE_panel 14 3) ! 13
       = Fin (26265625 / 262144)"
proof -
  have len: "13 < length WIDE_panel" by (simp add: WIDE_panel_def)
  have cons: "\<forall>j \<in> {13 - 13..13}. consistent_row (WIDE_panel ! j)"
    by (simp add: WIDE_row consistent_row_def)
  have "(\<lambda>j. the (Low (WIDE_panel ! j))) ` {13 - 13..13} = (\<lambda>j. 8) ` {13 - 13..13::nat}"
    by (rule image_cong) (simp_all add: WIDE_row)
  then have lo: "lowMin WIDE_panel 13 = 8" by (simp add: lowMin_def)
  have "(\<lambda>j. the (High (WIDE_panel ! j))) ` {13 - 13..13} = (\<lambda>j. 12) ` {13 - 13..13::nat}"
    by (rule image_cong) (simp_all add: WIDE_row)
  then have hi: "highMax WIDE_panel 13 = 12" by (simp add: highMax_def)
  have all: "list_all consistent_row WIDE_panel"
    by (simp add: WIDE_panel_def list_all_iff consistent_row_def)
  from K_percent_cases [OF len rounding_up_by_1024th] len cons lo hi all rounding_up_by_1024th
  show ?thesis by (simp add: WIDE_row)
qed

text \<open>
  With High and Low flat at 10 and a Close of 11, \<open>%K\<close> at place 13 is \<open>+\<infinity>\<close>. Every
  number of this computation is a small integer and no operation on them rounds.
\<close>

theorem K_percent_flat_range_counterexample:
  "highMax FLAT_panel 13 = lowMin FLAT_panel 13
   \<and> fst (calculate_stochastic_oscillator (\<lambda>x. x) FLAT_panel 14 3) ! 13 = PInf"
proof -
  have len: "13 < length FLAT_panel" by (simp add: FLAT_panel_def)
  have "(\<lambda>j. the (Low (FLAT_panel ! j))) ` {13 - 13..13} = (\<lambda>j. 10) ` {13 - 13..13::nat}"
    by (rule image_cong) (simp_all add: FLAT_row)
  then have lo: "lowMin FLAT_panel 13 = 10" by (simp add: lowMin_def)
  have "(\<lambda>j. the (High (FLAT_panel ! j))) ` {13 - 13..13} = (\<lambda>j. 10) ` {13 - 13..13::nat}"
    by (rule image_cong) (simp_all add: FLAT_row)
  then have hi: "highMax FLAT_panel 13 = 10" by (simp add: highMax_def)
  have pres: "\<forall>j \<in> {13 - 13..13}. Low (FLAT_panel ! j) \<noteq> None \<and> High (FLAT_panel ! j) \<noteq> None"
    by (simp add: FLAT_row)
  have c: "Close (FLAT_panel ! 13) = Some 11" by (simp add: FLAT_row)
  have "fst (calculate_stochastic_oscillator (\<lambda>x. x) FLAT_panel 14 3) ! 13 = PInf"
    unfolding k_percent_value [OF len order_refl pres c] lo hi by (simp add: fdiv_rnd_def)
  with lo hi show ?thesis by simp
qed

end
